theory Spec2Isabelle
  imports Complex_Main
begin

section \<open>Tables of the warehouse database\<close>

text \<open>
  The server (the Express application in \<^verbatim>\<open>App.tsx\<close>) keeps all of its state in a
  PostgreSQL database. Each table is a list of rows, in insertion order; a row is a
  record of the columns the handlers read or write. Columns that only carry a default
  (\<^verbatim>\<open>createdAt\<close>, \<^verbatim>\<open>lastRestocked\<close>, the serial key of \<^verbatim>\<open>stock_history\<close> and of
  \<^verbatim>\<open>request_items\<close>) are left out: the position of a row in its list stands for its
  serial key and its insertion time.
\<close>

record item =
  i_id :: int
  i_name :: string
  i_description :: "string option"
  i_category :: "string option"
  i_quantity :: int
  i_minQuantity :: int
  i_unit :: "string option"
  i_status :: "string option"
  i_price :: rat
  i_isActive :: "int option"

record request =
  r_id :: string
  r_project_name :: "string option"
  r_requester_id :: "string option"
  r_reason :: "string option"
  r_priority :: "string option"
  r_due_date :: "string option"
  r_status :: "string option"
  r_updatedAt :: nat

record request_item =
  ri_request_id :: string
  ri_item_id :: int
  ri_quantity :: int

record history_entry =
  h_item_id :: int
  h_change_type :: string
  h_quantity_before :: int
  h_quantity_change :: int
  h_quantity_after :: int
  h_notes :: string
  h_created_by :: "string option"

record database =
  items :: "item list"
  requests :: "request list"
  request_items :: "request_item list"
  stock_history :: "history_entry list"
  items_id_seq :: int

section \<open>Statements that may throw\<close>

text \<open>
  Every \<^verbatim>\<open>await db.query(...)\<close> and \<^verbatim>\<open>await client.query(...)\<close> either runs its
  statement or throws: a constraint of the schema is violated (a value longer than its
  \<^verbatim>\<open>VARCHAR\<close> column, a number outside \<^verbatim>\<open>INT\<close>, a NULL in a \<^verbatim>\<open>NOT NULL\<close> column), a
  parameter does not parse as the column's type, the connection is lost. The handlers
  catch what is thrown. The model takes the point of failure as a parameter: \<open>None\<close>
  when no statement throws, \<open>Some n\<close> when the first \<open>n\<close> statements run and the next one
  throws. Numbers are unbounded integers: a number the column cannot hold is one of the
  failures of the statement that writes it.
\<close>

datatype error = RequestNotFound | DbError

fun exec :: "nat option \<Rightarrow> (database \<Rightarrow> database) \<Rightarrow> database \<Rightarrow> error + (nat option \<times> database)" where
  "exec None f db = Inr (None, f db)"
| "exec (Some 0) f db = Inl DbError"
| "exec (Some (Suc n)) f db = Inr (Some n, f db)"

text \<open>A statement that only reads (\<^verbatim>\<open>BEGIN\<close>, \<^verbatim>\<open>SELECT\<close>, \<^verbatim>\<open>COMMIT\<close>) leaves the tables as they are.\<close>

definition reads :: "database \<Rightarrow> database" where
  "reads db = db"

datatype reply =
    Ok_success
  | Ok_message string
  | Ok_item item
  | Created_item item
  | Created_id string
  | Bad_request string
  | Not_found string
  | Server_error error

fun http_code :: "reply \<Rightarrow> nat" where
  "http_code Ok_success = 200"
| "http_code (Ok_message m) = 200"
| "http_code (Ok_item i) = 200"
| "http_code (Created_item i) = 201"
| "http_code (Created_id r) = 201"
| "http_code (Bad_request m) = 400"
| "http_code (Not_found m) = 404"
| "http_code (Server_error e) = 500"

section \<open>PATCH /api/requests/:id/status\<close>

text \<open>
  The status written for an item by an approval:
  \<^verbatim>\<open>newQty === 0 ? "out-of-stock" : (newQty <= (item.minQuantity || 0) ? "low-stock" : "in-stock")\<close>.
  The column \<^verbatim>\<open>minQuantity\<close> is \<^verbatim>\<open>INT NOT NULL\<close>, so \<^verbatim>\<open>item.minQuantity || 0\<close> is the
  column's value.
\<close>

definition itemStatus :: "int \<Rightarrow> int \<Rightarrow> string" where
  "itemStatus newQty minQ =
     (if newQty = 0 then ''out-of-stock''
      else if newQty \<le> minQ then ''low-stock'' else ''in-stock'')"

text \<open>
  The rows of the one query that joins the lines of a request with the items they
  name. A line whose item does not exist yields no row.
\<close>

record line_row =
  l_item_id :: int
  requested_qty :: int
  current_qty :: int
  l_minQuantity :: int
  l_name :: string

definition join_line :: "request_item \<Rightarrow> item \<Rightarrow> line_row" where
  "join_line ri i =
     \<lparr>l_item_id = ri_item_id ri, requested_qty = ri_quantity ri,
      current_qty = i_quantity i, l_minQuantity = i_minQuantity i, l_name = i_name i\<rparr>"

definition request_lines :: "database \<Rightarrow> string \<Rightarrow> line_row list" where
  "request_lines db rid =
     concat (map (\<lambda>ri. map (join_line ri) (filter (\<lambda>i. i_id i = ri_item_id ri) (items db)))
        (filter (\<lambda>ri. ri_request_id ri = rid) (request_items db)))"

text \<open>
  The query has no \<^verbatim>\<open>ORDER BY\<close>: the database returns the joined rows in an order of
  its choosing, and the loop takes them in that order. The choice is a parameter of the
  model, a rank for every row: the rows come back by ascending rank, rows of equal rank
  in the order in which the lines were inserted. Every order of the rows is the order
  of some rank.
\<close>

definition returned_rows :: "(line_row \<Rightarrow> nat) \<Rightarrow> database \<Rightarrow> string \<Rightarrow> line_row list" where
  "returned_rows rank db rid = sort_key rank (request_lines db rid)"

text \<open>\<^verbatim>\<open>UPDATE items SET quantity = $1, status = $2 WHERE id = $3\<close>\<close>

definition update_item_stock :: "int \<Rightarrow> string \<Rightarrow> int \<Rightarrow> database \<Rightarrow> database" where
  "update_item_stock newQty st iid db =
     db\<lparr>items := map (\<lambda>i. if i_id i = iid then i\<lparr>i_quantity := newQty, i_status := Some st\<rparr> else i)
                    (items db)\<rparr>"

text \<open>\<^verbatim>\<open>INSERT INTO stock_history (...) VALUES (...)\<close>\<close>

definition insert_history :: "history_entry \<Rightarrow> database \<Rightarrow> database" where
  "insert_history e db = db\<lparr>stock_history := stock_history db @ [e]\<rparr>"

text \<open>\<^verbatim>\<open>approved_by || null\<close>: a missing or empty approver is stored as NULL.\<close>

fun or_null :: "string option \<Rightarrow> string option" where
  "or_null None = None"
| "or_null (Some s) = (if s = [] then None else Some s)"

definition newQty :: "line_row \<Rightarrow> int" where
  "newQty r = max 0 (current_qty r - requested_qty r)"

definition request_entry :: "string \<Rightarrow> string option \<Rightarrow> line_row \<Rightarrow> history_entry" where
  "request_entry rid approved_by r =
     \<lparr>h_item_id = l_item_id r, h_change_type = ''request'',
      h_quantity_before = current_qty r, h_quantity_change = - requested_qty r,
      h_quantity_after = newQty r, h_notes = ''Approved request '' @ rid,
      h_created_by = or_null approved_by\<rparr>"

text \<open>The loop over the joined rows: one UPDATE and one INSERT for each row.\<close>

fun deduct_stock ::
  "string \<Rightarrow> string option \<Rightarrow> line_row list \<Rightarrow> nat option \<Rightarrow> database \<Rightarrow> error + (nat option \<times> database)" where
  "deduct_stock rid approved_by [] k db = Inr (k, db)"
| "deduct_stock rid approved_by (r # rs) k db =
     (case exec k (update_item_stock (newQty r) (itemStatus (newQty r) (l_minQuantity r)) (l_item_id r)) db of
        Inl e \<Rightarrow> Inl e
      | Inr (k1, db1) \<Rightarrow>
          (case exec k1 (insert_history (request_entry rid approved_by r)) db1 of
             Inl e \<Rightarrow> Inl e
           | Inr (k2, db2) \<Rightarrow> deduct_stock rid approved_by rs k2 db2))"

text \<open>\<^verbatim>\<open>UPDATE requests SET status = $1, "updatedAt" = NOW() WHERE id = $2\<close>\<close>

definition update_request_status :: "string option \<Rightarrow> nat \<Rightarrow> string \<Rightarrow> database \<Rightarrow> database" where
  "update_request_status st now rid db =
     db\<lparr>requests := map (\<lambda>r. if r_id r = rid then r\<lparr>r_status := st, r_updatedAt := now\<rparr> else r)
                       (requests db)\<rparr>"

text \<open>Step 2 of the handler: the stock operations, when approving a request not yet approved.\<close>

definition stock_phase ::
  "(line_row \<Rightarrow> nat) \<Rightarrow> string \<Rightarrow> string option \<Rightarrow> string option \<Rightarrow> string option \<Rightarrow> nat option
     \<Rightarrow> database \<Rightarrow> error + (nat option \<times> database)" where
  "stock_phase rank rid st oldStatus approved_by k db =
     (if st = Some ''approved'' \<and> oldStatus \<noteq> Some ''approved''
      then (case exec k reads db of
              Inl e \<Rightarrow> Inl e
            | Inr (k1, db1) \<Rightarrow> deduct_stock rid approved_by (returned_rows rank db1 rid) k1 db1)
      else Inr (k, db))"

text \<open>
  The body of the \<^verbatim>\<open>try\<close> block, from \<^verbatim>\<open>BEGIN\<close> to \<^verbatim>\<open>COMMIT\<close>, on the connection's
  working copy of the tables. \<open>Inl\<close> is what the body throws.
\<close>

definition set_status_tx ::
  "nat option \<Rightarrow> (line_row \<Rightarrow> nat) \<Rightarrow> string \<Rightarrow> string option \<Rightarrow> string option \<Rightarrow> nat \<Rightarrow> database
     \<Rightarrow> error + database" where
  "set_status_tx k rank rid st approved_by now db =
     (case exec k reads db of
        Inl e \<Rightarrow> Inl e
      | Inr (k1, db1) \<Rightarrow>
     (case exec k1 reads db1 of
        Inl e \<Rightarrow> Inl e
      | Inr (k2, db2) \<Rightarrow>
     (case filter (\<lambda>r. r_id r = rid) (requests db2) of
        [] \<Rightarrow> Inl RequestNotFound
      | row # _ \<Rightarrow>
     (case stock_phase rank rid st (r_status row) approved_by k2 db2 of
        Inl e \<Rightarrow> Inl e
      | Inr (k3, db3) \<Rightarrow>
     (case exec k3 (update_request_status st now rid) db3 of
        Inl e \<Rightarrow> Inl e
      | Inr (k4, db4) \<Rightarrow>
     (case exec k4 reads db4 of
        Inl e \<Rightarrow> Inl e
      | Inr (k5, db5) \<Rightarrow> Inr db5))))))"

text \<open>
  The handler. When the body throws, the \<^verbatim>\<open>catch\<close> block sends \<^verbatim>\<open>ROLLBACK\<close>: the
  working copy is dropped and the tables are those before \<^verbatim>\<open>BEGIN\<close>. Otherwise the
  working copy was committed. The result is the reply and the tables other connections
  see afterwards.
\<close>

definition patch_request_status ::
  "nat option \<Rightarrow> (line_row \<Rightarrow> nat) \<Rightarrow> string \<Rightarrow> string option \<Rightarrow> string option \<Rightarrow> nat \<Rightarrow> database
     \<Rightarrow> reply \<times> database" where
  "patch_request_status k rank rid st approved_by now db =
     (case set_status_tx k rank rid st approved_by now db of
        Inl e \<Rightarrow> (Server_error e, db)
      | Inr db' \<Rightarrow> (Ok_success, db'))"

section \<open>PUT /api/items/:id\<close>

text \<open>
  The fields of the request body; \<open>None\<close> is a field the body does not have
  (\<^verbatim>\<open>undefined\<close>).
\<close>

record item_update =
  u_quantity :: "int option"
  u_notes :: "string option"
  u_historyNotes :: "string option"
  u_userId :: "string option"
  u_name :: "string option"
  u_description :: "string option"
  u_category :: "string option"
  u_minQuantity :: "int option"
  u_unit :: "string option"
  u_price :: "rat option"

text \<open>\<^verbatim>\<open>historyNotes || notes || 'Manual update'\<close>\<close>

definition actualNotes :: "item_update \<Rightarrow> string" where
  "actualNotes u =
     (case or_null (u_historyNotes u) of
        Some s \<Rightarrow> s
      | None \<Rightarrow> (case or_null (u_notes u) of Some s \<Rightarrow> s | None \<Rightarrow> ''Manual update''))"

text \<open>\<^verbatim>\<open>Object.keys(updates).length === 0\<close>\<close>

definition no_updates :: "item_update \<Rightarrow> bool" where
  "no_updates u \<longleftrightarrow>
     u_name u = None \<and> u_description u = None \<and> u_category u = None \<and> u_quantity u = None \<and>
     u_minQuantity u = None \<and> u_unit u = None \<and> u_price u = None"

text \<open>The SET clause built from the fields present: the status column is not among them.\<close>

definition apply_updates :: "item_update \<Rightarrow> item \<Rightarrow> item" where
  "apply_updates u i =
     i\<lparr>i_name := (case u_name u of None \<Rightarrow> i_name i | Some v \<Rightarrow> v),
       i_description := (case u_description u of None \<Rightarrow> i_description i | Some v \<Rightarrow> Some v),
       i_category := (case u_category u of None \<Rightarrow> i_category i | Some v \<Rightarrow> Some v),
       i_quantity := (case u_quantity u of None \<Rightarrow> i_quantity i | Some v \<Rightarrow> v),
       i_minQuantity := (case u_minQuantity u of None \<Rightarrow> i_minQuantity i | Some v \<Rightarrow> v),
       i_unit := (case u_unit u of None \<Rightarrow> i_unit i | Some v \<Rightarrow> Some v),
       i_price := (case u_price u of None \<Rightarrow> i_price i | Some v \<Rightarrow> v)\<rparr>"

text \<open>\<^verbatim>\<open>UPDATE items SET ... WHERE id = $n RETURNING *\<close>\<close>

definition update_item_fields :: "item_update \<Rightarrow> int \<Rightarrow> database \<Rightarrow> database" where
  "update_item_fields u iid db =
     db\<lparr>items := map (\<lambda>i. if i_id i = iid then apply_updates u i else i) (items db)\<rparr>"

text \<open>
  The history row of a manual update. The old quantity is a number
  (\<^verbatim>\<open>quantity INT NOT NULL\<close>), so \<^verbatim>\<open>oldQty || 0\<close> is \<open>oldQty\<close>, and so for the new one.
\<close>

definition manual_entry :: "int \<Rightarrow> item_update \<Rightarrow> int \<Rightarrow> int \<Rightarrow> history_entry" where
  "manual_entry iid u oldQty qty =
     \<lparr>h_item_id = iid,
      h_change_type = (if qty > oldQty then ''restock'' else ''adjustment''),
      h_quantity_before = oldQty, h_quantity_change = qty - oldQty,
      h_quantity_after = qty, h_notes = actualNotes u, h_created_by = u_userId u\<rparr>"

text \<open>
  The handler calls \<^verbatim>\<open>db.query\<close> on the pool, with no \<^verbatim>\<open>BEGIN\<close>: each statement is
  committed as soon as it has run, and the \<^verbatim>\<open>catch\<close> block only replies.
\<close>

definition put_item :: "nat option \<Rightarrow> int \<Rightarrow> item_update \<Rightarrow> database \<Rightarrow> reply \<times> database" where
  "put_item k iid u db =
     (case exec k reads db of
        Inl e \<Rightarrow> (Server_error e, db)
      | Inr (k1, db1) \<Rightarrow>
     (case filter (\<lambda>i. i_id i = iid) (items db1) of
        [] \<Rightarrow> (Not_found ''Item not found'', db1)
      | existing # _ \<Rightarrow>
     (let oldQty = i_quantity existing in
      if no_updates u then (Ok_message ''No updates provided'', db1)
      else
     (case exec k1 (update_item_fields u iid) db1 of
        Inl e \<Rightarrow> (Server_error e, db1)
      | Inr (k2, db2) \<Rightarrow>
     (let updatedItem = apply_updates u existing in
      case u_quantity u of
        None \<Rightarrow> (Ok_item updatedItem, db2)
      | Some qty \<Rightarrow>
          if qty \<noteq> oldQty
          then (case exec k2 (insert_history (manual_entry iid u oldQty qty)) db2 of
                  Inl e \<Rightarrow> (Server_error e, db2)
                | Inr (k3, db3) \<Rightarrow> (Ok_item updatedItem, db3))
          else (Ok_item updatedItem, db2))))))"

section \<open>POST /api/items and DELETE /api/items/:id\<close>

record new_item =
  n_name :: string
  n_description :: "string option"
  n_category :: "string option"
  n_quantity :: "int option"
  n_minQuantity :: "int option"
  n_price :: "rat option"
  n_unit :: "string option"

text \<open>
  The row inserted: \<^verbatim>\<open>quantity || 0\<close>, \<^verbatim>\<open>minQuantity || 0\<close>, \<^verbatim>\<open>price || 0\<close>,
  \<^verbatim>\<open>unit || 'pcs'\<close>, the constant \<^verbatim>\<open>'in-stock'\<close> and \<^verbatim>\<open>1\<close>; the key comes from the
  sequence of the serial column.
\<close>

definition created_row :: "new_item \<Rightarrow> database \<Rightarrow> item" where
  "created_row n db =
     \<lparr>i_id = items_id_seq db + 1, i_name = n_name n, i_description = n_description n,
      i_category = n_category n,
      i_quantity = (case n_quantity n of None \<Rightarrow> 0 | Some q \<Rightarrow> q),
      i_minQuantity = (case n_minQuantity n of None \<Rightarrow> 0 | Some m \<Rightarrow> m),
      i_unit = Some (case or_null (n_unit n) of None \<Rightarrow> ''pcs'' | Some s \<Rightarrow> s),
      i_status = Some ''in-stock'',
      i_price = (case n_price n of None \<Rightarrow> 0 | Some p \<Rightarrow> p),
      i_isActive = Some 1\<rparr>"

definition insert_item :: "new_item \<Rightarrow> database \<Rightarrow> database" where
  "insert_item n db =
     db\<lparr>items := items db @ [created_row n db], items_id_seq := items_id_seq db + 1\<rparr>"

definition post_item :: "nat option \<Rightarrow> new_item \<Rightarrow> database \<Rightarrow> reply \<times> database" where
  "post_item k n db =
     (case exec k (insert_item n) db of
        Inl e \<Rightarrow> (Server_error e, db)
      | Inr (k1, db1) \<Rightarrow> (Created_item (created_row n db), db1))"

text \<open>\<^verbatim>\<open>UPDATE items SET "isActive" = 0 WHERE id = $1\<close>\<close>

definition deactivate_item :: "int \<Rightarrow> database \<Rightarrow> database" where
  "deactivate_item iid db =
     db\<lparr>items := map (\<lambda>i. if i_id i = iid then i\<lparr>i_isActive := Some 0\<rparr> else i) (items db)\<rparr>"

definition delete_item :: "nat option \<Rightarrow> int \<Rightarrow> database \<Rightarrow> reply \<times> database" where
  "delete_item k iid db =
     (case exec k (deactivate_item iid) db of
        Inl e \<Rightarrow> (Server_error e, db)
      | Inr (k1, db1) \<Rightarrow> (Ok_success, db1))"

section \<open>POST /api/requests\<close>

record new_request =
  q_project_name :: "string option"
  q_requester_id :: "string option"
  q_reason :: "string option"
  q_priority :: "string option"
  q_due_date :: "string option"
  q_items :: "(int \<times> int) list"

text \<open>
  The row of the new request: \<^verbatim>\<open>reason || ""\<close>, \<^verbatim>\<open>priority || "medium"\<close>,
  \<^verbatim>\<open>due_date || null\<close> and the status \<^verbatim>\<open>'pending'\<close>.
\<close>

definition insert_request :: "string \<Rightarrow> new_request \<Rightarrow> nat \<Rightarrow> database \<Rightarrow> database" where
  "insert_request requestId q now db =
     db\<lparr>requests := requests db @
        [\<lparr>r_id = requestId, r_project_name = q_project_name q, r_requester_id = q_requester_id q,
          r_reason = Some (case or_null (q_reason q) of None \<Rightarrow> [] | Some s \<Rightarrow> s),
          r_priority = Some (case or_null (q_priority q) of None \<Rightarrow> ''medium'' | Some s \<Rightarrow> s),
          r_due_date = or_null (q_due_date q), r_status = Some ''pending'', r_updatedAt = now\<rparr>]\<rparr>"

definition insert_request_item :: "string \<Rightarrow> int \<times> int \<Rightarrow> database \<Rightarrow> database" where
  "insert_request_item requestId line db =
     db\<lparr>request_items := request_items db @
        [\<lparr>ri_request_id = requestId, ri_item_id = fst line, ri_quantity = snd line\<rparr>]\<rparr>"

text \<open>One INSERT for each element of \<^verbatim>\<open>items\<close>, as the body lists them.\<close>

fun insert_request_items ::
  "string \<Rightarrow> (int \<times> int) list \<Rightarrow> nat option \<Rightarrow> database \<Rightarrow> error + (nat option \<times> database)" where
  "insert_request_items requestId [] k db = Inr (k, db)"
| "insert_request_items requestId (line # lines) k db =
     (case exec k (insert_request_item requestId line) db of
        Inl e \<Rightarrow> Inl e
      | Inr (k1, db1) \<Rightarrow> insert_request_items requestId lines k1 db1)"

definition create_request_tx ::
  "nat option \<Rightarrow> string \<Rightarrow> new_request \<Rightarrow> nat \<Rightarrow> database \<Rightarrow> error + database" where
  "create_request_tx k requestId q now db =
     (case exec k reads db of
        Inl e \<Rightarrow> Inl e
      | Inr (k1, db1) \<Rightarrow>
     (case exec k1 (insert_request requestId q now) db1 of
        Inl e \<Rightarrow> Inl e
      | Inr (k2, db2) \<Rightarrow>
     (case insert_request_items requestId (q_items q) k2 db2 of
        Inl e \<Rightarrow> Inl e
      | Inr (k3, db3) \<Rightarrow>
     (case exec k3 reads db3 of
        Inl e \<Rightarrow> Inl e
      | Inr (k4, db4) \<Rightarrow> Inr db4))))"

text \<open>The key \<open>requestId\<close> is the value \<^verbatim>\<open>uuidv4()\<close> returns.\<close>

definition post_request ::
  "nat option \<Rightarrow> string \<Rightarrow> new_request \<Rightarrow> nat \<Rightarrow> database \<Rightarrow> reply \<times> database" where
  "post_request k requestId q now db =
     (if or_null (q_project_name q) = None \<or> q_items q = []
      then (Bad_request ''Missing required fields'', db)
      else (case create_request_tx k requestId q now db of
              Inl e \<Rightarrow> (Server_error e, db)
            | Inr db' \<Rightarrow> (Created_id requestId, db')))"

section \<open>What a call does when no statement throws\<close>

text \<open>The status step 1 of the status handler reads: that of the first row with the key.\<close>

definition current_status :: "database \<Rightarrow> string \<Rightarrow> string option option" where
  "current_status db rid =
     (case filter (\<lambda>r. r_id r = rid) (requests db) of
        [] \<Rightarrow> None
      | row # _ \<Rightarrow> Some (r_status row))"

text \<open>One turn of the loop, and the whole loop, without the failure points.\<close>

definition deduct_line :: "string \<Rightarrow> string option \<Rightarrow> line_row \<Rightarrow> database \<Rightarrow> database" where
  "deduct_line rid approved_by r db =
     insert_history (request_entry rid approved_by r)
       (update_item_stock (newQty r) (itemStatus (newQty r) (l_minQuantity r)) (l_item_id r) db)"

fun deduct_all :: "string \<Rightarrow> string option \<Rightarrow> line_row list \<Rightarrow> database \<Rightarrow> database" where
  "deduct_all rid approved_by [] db = db"
| "deduct_all rid approved_by (r # rs) db =
     deduct_all rid approved_by rs (deduct_line rid approved_by r db)"

text \<open>Everything one status call writes: every line of the request, then the request row.\<close>

definition set_status_effect ::
  "(line_row \<Rightarrow> nat) \<Rightarrow> string \<Rightarrow> string option \<Rightarrow> string option \<Rightarrow> nat \<Rightarrow> database \<Rightarrow> database" where
  "set_status_effect rank rid st approved_by now db =
     update_request_status st now rid
       (if st = Some ''approved'' \<and> current_status db rid \<noteq> Some (Some ''approved'')
        then deduct_all rid approved_by (returned_rows rank db rid) db
        else db)"

text \<open>The number of statements a status call sends, \<^verbatim>\<open>BEGIN\<close> and \<^verbatim>\<open>COMMIT\<close> included.\<close>

definition statements :: "string \<Rightarrow> string option \<Rightarrow> database \<Rightarrow> nat" where
  "statements rid st db =
     (case current_status db rid of
        None \<Rightarrow> 2
      | Some oldStatus \<Rightarrow>
          (if st = Some ''approved'' \<and> oldStatus \<noteq> Some ''approved''
           then 1 + 2 * length (request_lines db rid) else 0) + 4)"

text \<open>What a manual update writes when both of its statements run.\<close>

definition put_effect :: "int \<Rightarrow> item_update \<Rightarrow> int \<Rightarrow> database \<Rightarrow> database" where
  "put_effect iid u oldQty db =
     (case u_quantity u of
        None \<Rightarrow> update_item_fields u iid db
      | Some qty \<Rightarrow>
          if qty \<noteq> oldQty
          then insert_history (manual_entry iid u oldQty qty) (update_item_fields u iid db)
          else update_item_fields u iid db)"

section \<open>The rules of the specification\<close>

text \<open>
  The status rule in the specification's words: out of stock when the quantity is zero,
  low stock when it is positive and at most the reorder threshold, in stock otherwise.
\<close>

definition spec_status :: "int \<Rightarrow> int \<Rightarrow> string" where
  "spec_status q m =
     (if q = 0 then ''out-of-stock''
      else if 0 < q \<and> q \<le> m then ''low-stock'' else ''in-stock'')"

text \<open>
  The ledger rules in the specification's words: every entry has
  \<open>after = before + change\<close>, and of two consecutive entries of one item the later one
  starts where the earlier one ended.
\<close>

definition balanced :: "history_entry \<Rightarrow> bool" where
  "balanced e \<longleftrightarrow> h_quantity_after e = h_quantity_before e + h_quantity_change e"

fun chained :: "history_entry list \<Rightarrow> bool" where
  "chained (e1 # e2 # es) = (h_quantity_before e2 = h_quantity_after e1 \<and> chained (e2 # es))"
| "chained es = True"

definition item_history :: "database \<Rightarrow> int \<Rightarrow> history_entry list" where
  "item_history db iid = filter (\<lambda>e. h_item_id e = iid) (stock_history db)"

definition ledger_chained :: "database \<Rightarrow> bool" where
  "ledger_chained db \<longleftrightarrow>
     (\<forall>e \<in> set (stock_history db). chained (item_history db (h_item_id e)))"

text \<open>The last entry of an item agrees with the quantity stored for the item.\<close>

definition ledger_tracks_stock :: "database \<Rightarrow> bool" where
  "ledger_tracks_stock db \<longleftrightarrow>
     (\<forall>i \<in> set (items db). item_history db (i_id i) \<noteq> [] \<longrightarrow>
         h_quantity_after (last (item_history db (i_id i))) = i_quantity i)"

section \<open>A small warehouse\<close>

definition paper :: item where
  "paper =
     \<lparr>i_id = 1, i_name = ''Paper A4'', i_description = None, i_category = Some ''office'',
      i_quantity = 10, i_minQuantity = 2, i_unit = Some ''rim'', i_status = Some ''in-stock'',
      i_price = 0, i_isActive = Some 1\<rparr>"

definition toner :: item where
  "toner =
     \<lparr>i_id = 2, i_name = ''Toner'', i_description = None, i_category = Some ''office'',
      i_quantity = 4, i_minQuantity = 1, i_unit = Some ''pcs'', i_status = Some ''in-stock'',
      i_price = 0, i_isActive = Some 1\<rparr>"

definition order1 :: "string option \<Rightarrow> request" where
  "order1 st =
     \<lparr>r_id = ''r1'', r_project_name = Some ''Audit'', r_requester_id = Some ''u1'',
      r_reason = Some [], r_priority = Some ''medium'', r_due_date = None, r_status = st,
      r_updatedAt = 0\<rparr>"

definition line1 :: "int \<times> int \<Rightarrow> request_item" where
  "line1 l = \<lparr>ri_request_id = ''r1'', ri_item_id = fst l, ri_quantity = snd l\<rparr>"

text \<open>Two items and no request yet.\<close>

definition shelves :: database where
  "shelves =
     \<lparr>items = [paper, toner], requests = [], request_items = [], stock_history = [],
      items_id_seq = 2\<rparr>"

text \<open>The same with one request \<open>r1\<close>, of the given status and lines (item, quantity).\<close>

definition store :: "string option \<Rightarrow> (int \<times> int) list \<Rightarrow> database" where
  "store st ls = shelves\<lparr>requests := [order1 st], request_items := map line1 ls\<rparr>"

text \<open>The history row of a first delivery of ten units of paper.\<close>

definition first_delivery :: history_entry where
  "first_delivery =
     \<lparr>h_item_id = 1, h_change_type = ''restock'', h_quantity_before = 0,
      h_quantity_change = 10, h_quantity_after = 10, h_notes = ''Manual update'',
      h_created_by = Some ''u1''\<rparr>"

text \<open>
  Two orders for the rows of a request: as the lines were inserted, and the line of three
  units after every other line.
\<close>

definition as_inserted :: "line_row \<Rightarrow> nat" where
  "as_inserted r = 0"

definition three_last :: "line_row \<Rightarrow> nat" where
  "three_last r = (if requested_qty r = 3 then 1 else 0)"

definition audit_order :: "(int \<times> int) list \<Rightarrow> new_request" where
  "audit_order ls =
     \<lparr>q_project_name = Some ''Audit'', q_requester_id = Some ''u1'', q_reason = None,
      q_priority = None, q_due_date = None, q_items = ls\<rparr>"

definition set_quantity :: "int \<Rightarrow> item_update" where
  "set_quantity q =
     \<lparr>u_quantity = Some q, u_notes = None, u_historyNotes = None, u_userId = Some ''u1'',
      u_name = None, u_description = None, u_category = None, u_minQuantity = None,
      u_unit = None, u_price = None\<rparr>"

definition empty_shelf :: new_item where
  "empty_shelf =
     \<lparr>n_name = ''Stapler'', n_description = None, n_category = None, n_quantity = Some 0,
      n_minQuantity = Some 3, n_price = None, n_unit = None\<rparr>"

section \<open>A call that replies with success has run every statement\<close>

lemma set_returned_rows: "set (returned_rows rank db rid) = set (request_lines db rid)"
  by (simp add: returned_rows_def)

lemma distinct_returned_rows:
  "distinct (map l_item_id (returned_rows rank db rid)) = distinct (map l_item_id (request_lines db rid))"
  by (simp add: returned_rows_def distinct_map)

lemma exec_Inr: "exec k f db = Inr (k', db') \<Longrightarrow> db' = f db"
  by (cases "(k, f, db)" rule: exec.cases) auto

lemma deduct_stock_Inr:
  "deduct_stock rid ab rs k db = Inr (k', db') \<Longrightarrow> db' = deduct_all rid ab rs db"
proof (induction rs arbitrary: k db)
  case Nil
  then show ?case by simp
next
  case (Cons r rs)
  then show ?case
    by (auto simp: deduct_line_def split: sum.splits dest!: exec_Inr)
qed

lemma deduct_stock_None: "deduct_stock rid ab rs None db = Inr (None, deduct_all rid ab rs db)"
  by (induction rs arbitrary: db) (simp_all add: deduct_line_def)

lemma stock_phase_Inr:
  "stock_phase rank rid st old ab k db = Inr (k', db') \<Longrightarrow>
     db' = (if st = Some ''approved'' \<and> old \<noteq> Some ''approved''
            then deduct_all rid ab (returned_rows rank db rid) db else db)"
  by (auto simp: stock_phase_def reads_def split: if_splits sum.splits dest!: exec_Inr deduct_stock_Inr)

lemma set_status_tx_Inr:
  assumes "set_status_tx k rank rid st ab now db = Inr db'"
  shows "current_status db rid \<noteq> None \<and> db' = set_status_effect rank rid st ab now db"
  using assms
  unfolding set_status_tx_def set_status_effect_def current_status_def
  by (auto simp: reads_def split: sum.splits list.splits dest!: exec_Inr stock_phase_Inr)

lemma set_status_tx_None:
  "set_status_tx None rank rid st ab now db =
     (if current_status db rid = None then Inl RequestNotFound
      else Inr (set_status_effect rank rid st ab now db))"
  unfolding set_status_tx_def set_status_effect_def current_status_def stock_phase_def
  by (auto simp: reads_def deduct_stock_None split: list.splits)

lemma patch_cases:
  "patch_request_status k rank rid st ab now db = (rep, db') \<Longrightarrow>
     (rep = Ok_success \<and> current_status db rid \<noteq> None \<and> db' = set_status_effect rank rid st ab now db)
     \<or> ((\<exists>e. rep = Server_error e) \<and> db' = db)"
  unfolding patch_request_status_def
  by (auto split: sum.splits dest: set_status_tx_Inr)

lemma exec_Some_Inr:
  "exec (Some n) f db = Inr (k', db') \<Longrightarrow> 1 \<le> n \<and> k' = Some (n - 1) \<and> db' = f db"
  by (cases n) auto

lemma deduct_stock_Some_Inr:
  "deduct_stock rid ab rs (Some n) db = Inr (k', db') \<Longrightarrow>
     2 * length rs \<le> n \<and> k' = Some (n - 2 * length rs)"
proof (induction rs arbitrary: n db)
  case Nil
  then show ?case by simp
next
  case (Cons r rs)
  from Cons.prems obtain k1 db1 where
    e1: "exec (Some n) (update_item_stock (newQty r) (itemStatus (newQty r) (l_minQuantity r)) (l_item_id r)) db = Inr (k1, db1)"
    by (auto split: sum.splits)
  from exec_Some_Inr[OF e1] have n1: "1 \<le> n" "k1 = Some (n - 1)" by simp_all
  from Cons.prems e1 obtain k2 db2 where
    e2: "exec (Some (n - 1)) (insert_history (request_entry rid ab r)) db1 = Inr (k2, db2)"
    and rest: "deduct_stock rid ab rs k2 db2 = Inr (k', db')"
    by (auto simp: n1 split: sum.splits)
  from exec_Some_Inr[OF e2] have n2: "1 \<le> n - 1" "k2 = Some (n - 1 - 1)" by simp_all
  from Cons.IH[OF rest[unfolded n2(2)]] n1 n2 show ?case by auto
qed

lemma stock_phase_Some_Inr:
  assumes "stock_phase rank rid st old ab (Some n) db = Inr (k', db')"
  shows "(if st = Some ''approved'' \<and> old \<noteq> Some ''approved''
          then 1 + 2 * length (request_lines db rid) else 0) \<le> n \<and>
         k' = Some (n - (if st = Some ''approved'' \<and> old \<noteq> Some ''approved''
          then 1 + 2 * length (request_lines db rid) else 0))"
proof (cases "st = Some ''approved'' \<and> old \<noteq> Some ''approved''")
  case True
  with assms obtain k1 db1 where e1: "exec (Some n) reads db = Inr (k1, db1)"
    and rest: "deduct_stock rid ab (returned_rows rank db1 rid) k1 db1 = Inr (k', db')"
    by (auto simp: stock_phase_def split: sum.splits)
  from exec_Some_Inr[OF e1] have n1: "1 \<le> n" "k1 = Some (n - 1)" "db1 = db"
    by (simp_all add: reads_def)
  from deduct_stock_Some_Inr[OF rest[unfolded n1(2) n1(3)]] n1 True show ?thesis
    by (auto simp: returned_rows_def)
next
  case False
  with assms show ?thesis by (auto simp: stock_phase_def)
qed

lemma set_status_tx_Some_Inr:
  assumes "set_status_tx (Some n) rank rid st ab now db = Inr db'"
  shows "statements rid st db \<le> n"
proof -
  let ?m = "(if st = Some ''approved'' \<and> current_status db rid \<noteq> Some (Some ''approved'')
          then 1 + 2 * length (request_lines db rid) else 0)"
  from assms obtain k1 db1 where e1: "exec (Some n) reads db = Inr (k1, db1)"
    by (auto simp: set_status_tx_def split: sum.splits)
  from exec_Some_Inr[OF e1] have n1: "1 \<le> n" "k1 = Some (n - 1)" "db1 = db" by (simp_all add: reads_def)
  from assms e1 obtain k2 db2 where e2: "exec (Some (n - 1)) reads db = Inr (k2, db2)"
    by (auto simp: set_status_tx_def n1 split: sum.splits)
  from exec_Some_Inr[OF e2] have n2: "1 \<le> n - 1" "k2 = Some (n - 1 - 1)" "db2 = db" by (simp_all add: reads_def)
  from assms e1 e2 obtain row rest where f: "filter (\<lambda>r. r_id r = rid) (requests db) = row # rest"
    by (auto simp: set_status_tx_def n1 n2 split: sum.splits list.splits)
  then have cs: "current_status db rid = Some (r_status row)" by (simp add: current_status_def)
  from assms e1 e2 f obtain k3 db3 where
    e3: "stock_phase rank rid st (r_status row) ab (Some (n - 1 - 1)) db = Inr (k3, db3)"
    by (auto simp: set_status_tx_def n1 n2 split: sum.splits)
  from stock_phase_Some_Inr[OF e3] have n3: "?m \<le> n - 1 - 1" "k3 = Some (n - 1 - 1 - ?m)"
    by (simp_all add: cs)
  from assms e1 e2 f e3 obtain k4 db4 where
    e4: "exec (Some (n - 1 - 1 - ?m)) (update_request_status st now rid) db3 = Inr (k4, db4)"
    by (auto simp: set_status_tx_def n1 n2 n3(2) split: sum.splits)
  from exec_Some_Inr[OF e4] have n4: "1 \<le> n - 1 - 1 - ?m" "k4 = Some (n - 1 - 1 - ?m - 1)" by simp_all
  from assms e1 e2 f e3 e4 obtain k5 db5 where
    e5: "exec (Some (n - 1 - 1 - ?m - 1)) reads db4 = Inr (k5, db5)"
    by (auto simp: set_status_tx_def n1 n2 n3(2) n4(2) split: sum.splits)
  from exec_Some_Inr[OF e5] have n5: "1 \<le> n - 1 - 1 - ?m - 1" by simp
  have "statements rid st db = ?m + 4" by (simp add: statements_def cs)
  with n1 n2 n3 n4 n5 show ?thesis by linarith
qed

section \<open>What the loop and the status update leave alone\<close>

lemma deduct_all_frame:
  "requests (deduct_all rid ab rs db) = requests db"
  "request_items (deduct_all rid ab rs db) = request_items db"
  "items_id_seq (deduct_all rid ab rs db) = items_id_seq db"
  by (induction rs arbitrary: db)
     (simp_all add: deduct_line_def insert_history_def update_item_stock_def)

lemma deduct_all_history:
  "stock_history (deduct_all rid ab rs db) = stock_history db @ map (request_entry rid ab) rs"
  by (induction rs arbitrary: db)
     (simp_all add: deduct_line_def insert_history_def update_item_stock_def)

lemma update_request_status_frame:
  "items (update_request_status st now rid db) = items db"
  "stock_history (update_request_status st now rid db) = stock_history db"
  "request_items (update_request_status st now rid db) = request_items db"
  "items_id_seq (update_request_status st now rid db) = items_id_seq db"
  by (simp_all add: update_request_status_def)

lemma request_lines_origin:
  "r \<in> set (request_lines db rid) \<Longrightarrow>
     \<exists>ri \<in> set (request_items db). \<exists>i \<in> set (items db).
        ri_request_id ri = rid \<and> ri_item_id ri = i_id i \<and> r = join_line ri i"
proof -
  assume "r \<in> set (request_lines db rid)"
  then obtain ri i where "ri \<in> set (request_items db)" "ri_request_id ri = rid"
      "i \<in> set (items db)" "i_id i = ri_item_id ri" "r = join_line ri i"
    by (auto simp: request_lines_def)
  then show ?thesis by (intro bexI[of _ ri] bexI[of _ i]) auto
qed

lemma request_lines_complete:
  "ri \<in> set (request_items db) \<Longrightarrow> i \<in> set (items db) \<Longrightarrow> ri_request_id ri = rid \<Longrightarrow>
   ri_item_id ri = i_id i \<Longrightarrow> join_line ri i \<in> set (request_lines db rid)"
  by (auto simp: request_lines_def)

lemma filter_map_same: "(\<And>x. P (f x) = P x) \<Longrightarrow> filter P (map f xs) = map f (filter P xs)"
  by (induction xs) auto

lemma filter_update_request_status:
  "filter (\<lambda>r. r_id r = rid') (requests (update_request_status st now rid db)) =
     map (\<lambda>r. if r_id r = rid then r\<lparr>r_status := st, r_updatedAt := now\<rparr> else r)
       (filter (\<lambda>r. r_id r = rid') (requests db))"
  unfolding update_request_status_def by (simp add: filter_map_same)

lemma current_status_after_update:
  assumes "current_status db rid \<noteq> None"
  shows "current_status (update_request_status st now rid db) rid = Some st"
proof -
  from assms obtain row rest where f: "filter (\<lambda>r. r_id r = rid) (requests db) = row # rest"
    by (auto simp: current_status_def split: list.splits)
  then have "row \<in> set (filter (\<lambda>r. r_id r = rid) (requests db))" by simp
  then have "r_id row = rid" by simp
  then show ?thesis
    by (simp add: current_status_def filter_update_request_status f)
qed

lemma current_status_deduct_all: "current_status (deduct_all rid' ab rs db) rid = current_status db rid"
  by (simp add: current_status_def deduct_all_frame)

lemma set_status_effect_status:
  "current_status db rid \<noteq> None \<Longrightarrow> current_status (set_status_effect rank rid st ab now db) rid = Some st"
  unfolding set_status_effect_def
  by (simp add: current_status_after_update current_status_deduct_all)

lemma reapprove_effect:
  "current_status db rid = Some (Some ''approved'') \<Longrightarrow>
     set_status_effect rank rid (Some ''approved'') ab now db = update_request_status (Some ''approved'') now rid db"
  by (simp add: set_status_effect_def)

section \<open>The ledger under a quantity write\<close>

lemma chained_snoc:
  "chained (es @ [e]) \<longleftrightarrow> chained es \<and> (es \<noteq> [] \<longrightarrow> h_quantity_before e = h_quantity_after (last es))"
  by (induction es rule: chained.induct) auto

lemma ledger_chained_all: "ledger_chained db \<longleftrightarrow> (\<forall>iid. chained (item_history db iid))"
proof
  assume l: "ledger_chained db"
  show "\<forall>iid. chained (item_history db iid)"
  proof
    fix iid
    show "chained (item_history db iid)"
    proof (cases "item_history db iid")
      case Nil
      then show ?thesis by simp
    next
      case (Cons e es)
      then have "e \<in> set (item_history db iid)" by simp
      then have "e \<in> set (stock_history db)" "h_item_id e = iid" by (simp_all add: item_history_def)
      with l show ?thesis by (auto simp: ledger_chained_def)
    qed
  qed
qed (simp add: ledger_chained_def)

lemma write_with_entry_keeps_ledger:
  assumes ch: "\<forall>iid. chained (item_history db iid)" and tr: "ledger_tracks_stock db"
    and ex: "x \<in> set (items db)" "i_id x = iid" "h_quantity_before e = i_quantity x"
    and it: "items db1 = map (\<lambda>i. if i_id i = iid then g i else i) (items db)"
            "\<And>i. i_id (g i) = i_id i" "\<And>i. i_quantity (g i) = h_quantity_after e"
    and hi: "stock_history db1 = stock_history db @ [e]" "h_item_id e = iid"
  shows "(\<forall>iid. chained (item_history db1 iid)) \<and> ledger_tracks_stock db1"
proof -
  have ih: "item_history db1 j = item_history db j @ (if iid = j then [e] else [])" for j
    by (simp add: item_history_def hi)
  have "chained (item_history db1 j)" for j
  proof (cases "iid = j")
    case True
    have "h_quantity_after (last (item_history db iid)) = i_quantity x" if "item_history db iid \<noteq> []"
      using tr ex that by (auto simp: ledger_tracks_stock_def)
    with ch ex True show ?thesis by (simp add: ih chained_snoc)
  next
    case False
    with ch show ?thesis by (simp add: ih)
  qed
  moreover have "ledger_tracks_stock db1"
    unfolding ledger_tracks_stock_def
  proof (intro ballI impI)
    fix i' assume i': "i' \<in> set (items db1)" and ne: "item_history db1 (i_id i') \<noteq> []"
    from i' obtain i where i: "i \<in> set (items db)" and eq: "i' = (if i_id i = iid then g i else i)"
      by (auto simp: it(1))
    show "h_quantity_after (last (item_history db1 (i_id i'))) = i_quantity i'"
    proof (cases "i_id i = iid")
      case True
      then show ?thesis by (simp add: eq it ih)
    next
      case False
      with ne have "item_history db (i_id i) \<noteq> []" by (simp add: eq ih)
      with tr i have "h_quantity_after (last (item_history db (i_id i))) = i_quantity i"
        by (auto simp: ledger_tracks_stock_def)
      with False show ?thesis by (simp add: eq ih)
    qed
  qed
  ultimately show ?thesis by blast
qed

lemma rewrite_keeps_ledger:
  assumes ch: "\<forall>iid. chained (item_history db iid)" and tr: "ledger_tracks_stock db"
    and it: "items db1 = map (\<lambda>i. if i_id i = iid then g i else i) (items db)"
            "\<And>i. i_id (g i) = i_id i"
            "\<And>i. i \<in> set (items db) \<Longrightarrow> i_id i = iid \<Longrightarrow> item_history db iid \<noteq> [] \<Longrightarrow>
                 i_quantity (g i) = h_quantity_after (last (item_history db iid))"
    and hi: "stock_history db1 = stock_history db"
  shows "(\<forall>iid. chained (item_history db1 iid)) \<and> ledger_tracks_stock db1"
proof -
  have ih: "item_history db1 j = item_history db j" for j
    by (simp add: item_history_def hi)
  have "ledger_tracks_stock db1"
    unfolding ledger_tracks_stock_def
  proof (intro ballI impI)
    fix i' assume i': "i' \<in> set (items db1)" and ne: "item_history db1 (i_id i') \<noteq> []"
    from i' obtain i where i: "i \<in> set (items db)" and eq: "i' = (if i_id i = iid then g i else i)"
      by (auto simp: it(1))
    show "h_quantity_after (last (item_history db1 (i_id i'))) = i_quantity i'"
    proof (cases "i_id i = iid")
      case True
      with ne have "item_history db iid \<noteq> []" by (simp add: eq ih it(2))
      from it(3)[OF i True this] True show ?thesis by (simp add: eq ih it(2))
    next
      case False
      with ne have "item_history db (i_id i) \<noteq> []" by (simp add: eq ih)
      with tr i have "h_quantity_after (last (item_history db (i_id i))) = i_quantity i"
        by (auto simp: ledger_tracks_stock_def)
      with False show ?thesis by (simp add: eq ih)
    qed
  qed
  with ch show ?thesis by (simp add: ih)
qed

lemma deduct_line_keeps_ledger:
  assumes "\<forall>iid. chained (item_history db iid)" "ledger_tracks_stock db"
    and "x \<in> set (items db)" "i_id x = l_item_id r" "i_quantity x = current_qty r"
  shows "(\<forall>iid. chained (item_history (deduct_line rid ab r db) iid)) \<and>
         ledger_tracks_stock (deduct_line rid ab r db)"
proof (rule write_with_entry_keeps_ledger[where e = "request_entry rid ab r" and iid = "l_item_id r"
        and g = "\<lambda>i. i\<lparr>i_quantity := newQty r, i_status := Some (itemStatus (newQty r) (l_minQuantity r))\<rparr>"
        and x = x and db = db])
  show "items (deduct_line rid ab r db) =
      map (\<lambda>i. if i_id i = l_item_id r
                then i\<lparr>i_quantity := newQty r, i_status := Some (itemStatus (newQty r) (l_minQuantity r))\<rparr>
                else i) (items db)"
    by (simp add: deduct_line_def insert_history_def update_item_stock_def)
  show "stock_history (deduct_line rid ab r db) = stock_history db @ [request_entry rid ab r]"
    by (simp add: deduct_line_def insert_history_def update_item_stock_def)
qed (use assms in \<open>simp_all add: request_entry_def\<close>)

lemma deduct_line_other_items:
  "x \<in> set (items db) \<Longrightarrow> i_id x \<noteq> l_item_id r \<Longrightarrow> x \<in> set (items (deduct_line rid ab r db))"
  by (force simp: deduct_line_def insert_history_def update_item_stock_def)

lemma deduct_all_keeps_ledger:
  assumes "\<forall>iid. chained (item_history db iid)" "ledger_tracks_stock db"
    and "distinct (map l_item_id rs)"
    and "\<forall>r \<in> set rs. \<exists>x \<in> set (items db). i_id x = l_item_id r \<and> i_quantity x = current_qty r"
  shows "(\<forall>iid. chained (item_history (deduct_all rid ab rs db) iid)) \<and>
         ledger_tracks_stock (deduct_all rid ab rs db)"
  using assms
proof (induction rs arbitrary: db)
  case Nil
  then show ?case by simp
next
  case (Cons r rs)
  from Cons.prems(4) obtain x where x: "x \<in> set (items db)" "i_id x = l_item_id r" "i_quantity x = current_qty r"
    by auto
  from deduct_line_keeps_ledger[OF Cons.prems(1,2) x]
  have step: "\<forall>iid. chained (item_history (deduct_line rid ab r db) iid)"
    "ledger_tracks_stock (deduct_line rid ab r db)" by blast+
  have rest: "\<forall>r' \<in> set rs. \<exists>x \<in> set (items (deduct_line rid ab r db)). i_id x = l_item_id r' \<and> i_quantity x = current_qty r'"
  proof
    fix r' assume r': "r' \<in> set rs"
    with Cons.prems(4) obtain y where y: "y \<in> set (items db)" "i_id y = l_item_id r'" "i_quantity y = current_qty r'"
      by auto
    from Cons.prems(3) have "l_item_id r \<notin> l_item_id ` set rs" by simp
    with r' have "l_item_id r' \<noteq> l_item_id r" by (metis image_eqI)
    with y deduct_line_other_items[of y db r rid ab]
    show "\<exists>x \<in> set (items (deduct_line rid ab r db)). i_id x = l_item_id r' \<and> i_quantity x = current_qty r'"
      by auto
  qed
  from Cons.prems(3) have "distinct (map l_item_id rs)" by simp
  from Cons.IH[OF step this rest] show ?case by simp
qed

lemma request_lines_snapshot:
  "\<forall>r \<in> set (request_lines db rid). \<exists>x \<in> set (items db). i_id x = l_item_id r \<and> i_quantity x = current_qty r"
proof
  fix r assume "r \<in> set (request_lines db rid)"
  from request_lines_origin[OF this] show "\<exists>x \<in> set (items db). i_id x = l_item_id r \<and> i_quantity x = current_qty r"
    by (auto simp: join_line_def)
qed

lemma ledger_update_request_status:
  "item_history (update_request_status st now rid db) iid = item_history db iid"
  "ledger_tracks_stock (update_request_status st now rid db) = ledger_tracks_stock db"
  by (simp_all add: item_history_def ledger_tracks_stock_def update_request_status_def)

lemma set_status_effect_keeps_ledger:
  assumes "ledger_chained db" "ledger_tracks_stock db" "distinct (map l_item_id (request_lines db rid))"
  shows "ledger_chained (set_status_effect rank rid st ab now db) \<and>
         ledger_tracks_stock (set_status_effect rank rid st ab now db)"
proof (cases "st = Some ''approved'' \<and> current_status db rid \<noteq> Some (Some ''approved'')")
  case True
  from assms(1) have "\<forall>iid. chained (item_history db iid)" by (simp add: ledger_chained_all)
  moreover from assms(3) have "distinct (map l_item_id (returned_rows rank db rid))"
    by (simp add: distinct_returned_rows)
  moreover from request_lines_snapshot[of db rid]
  have "\<forall>r \<in> set (returned_rows rank db rid).
          \<exists>x \<in> set (items db). i_id x = l_item_id r \<and> i_quantity x = current_qty r"
    by (simp add: set_returned_rows)
  ultimately have "(\<forall>iid. chained (item_history (deduct_all rid ab (returned_rows rank db rid) db) iid)) \<and>
         ledger_tracks_stock (deduct_all rid ab (returned_rows rank db rid) db)"
    using assms(2) by (intro deduct_all_keeps_ledger) simp_all
  with True
  show ?thesis
    by (simp add: set_status_effect_def ledger_chained_all ledger_update_request_status)
next
  case False
  with assms(1,2) show ?thesis
    by (auto simp: set_status_effect_def ledger_chained_all ledger_update_request_status)
qed

lemma request_entry_of_line:
  assumes "r \<in> set (request_lines db rid)"
  shows "h_quantity_after (request_entry rid ab r)
           = max 0 (h_quantity_before (request_entry rid ab r) + h_quantity_change (request_entry rid ab r)) \<and>
         (\<exists>ri \<in> set (request_items db). \<exists>i \<in> set (items db).
             ri_request_id ri = rid \<and> ri_item_id ri = i_id i \<and>
             h_item_id (request_entry rid ab r) = i_id i \<and>
             h_quantity_before (request_entry rid ab r) = i_quantity i \<and>
             h_quantity_change (request_entry rid ab r) = - ri_quantity ri \<and>
             (balanced (request_entry rid ab r) \<longleftrightarrow> ri_quantity ri \<le> i_quantity i))"
proof -
  from request_lines_origin[OF assms] obtain ri i where
    o: "ri \<in> set (request_items db)" "i \<in> set (items db)" "ri_request_id ri = rid"
      "ri_item_id ri = i_id i" "r = join_line ri i" by blast
  have "h_item_id (request_entry rid ab r) = i_id i \<and>
        h_quantity_before (request_entry rid ab r) = i_quantity i \<and>
        h_quantity_change (request_entry rid ab r) = - ri_quantity ri \<and>
        (balanced (request_entry rid ab r) \<longleftrightarrow> ri_quantity ri \<le> i_quantity i)"
    using o(4,5) by (auto simp: request_entry_def join_line_def newQty_def balanced_def)
  with o(1,2,3,4) have "\<exists>ri \<in> set (request_items db). \<exists>i \<in> set (items db).
             ri_request_id ri = rid \<and> ri_item_id ri = i_id i \<and>
             h_item_id (request_entry rid ab r) = i_id i \<and>
             h_quantity_before (request_entry rid ab r) = i_quantity i \<and>
             h_quantity_change (request_entry rid ab r) = - ri_quantity ri \<and>
             (balanced (request_entry rid ab r) \<longleftrightarrow> ri_quantity ri \<le> i_quantity i)"
    by blast
  moreover have "h_quantity_after (request_entry rid ab r)
           = max 0 (h_quantity_before (request_entry rid ab r) + h_quantity_change (request_entry rid ab r))"
    by (simp add: request_entry_def newQty_def)
  ultimately show ?thesis by blast
qed

lemma set_status_effect_entries:
  "\<exists>es. stock_history (set_status_effect rank rid st ab now db) = stock_history db @ es \<and>
        (\<forall>e \<in> set es.
           h_quantity_after e = max 0 (h_quantity_before e + h_quantity_change e) \<and>
           (\<exists>ri \<in> set (request_items db). \<exists>i \<in> set (items db).
              ri_request_id ri = rid \<and> ri_item_id ri = i_id i \<and> h_item_id e = i_id i \<and>
              h_quantity_before e = i_quantity i \<and> h_quantity_change e = - ri_quantity ri \<and>
              (balanced e \<longleftrightarrow> ri_quantity ri \<le> i_quantity i)))"
proof (cases "st = Some ''approved'' \<and> current_status db rid \<noteq> Some (Some ''approved'')")
  case True
  let ?es = "map (request_entry rid ab) (returned_rows rank db rid)"
  have "stock_history (set_status_effect rank rid st ab now db) = stock_history db @ ?es"
    using True by (simp add: set_status_effect_def update_request_status_frame deduct_all_history)
  moreover have "h_quantity_after e = max 0 (h_quantity_before e + h_quantity_change e) \<and>
           (\<exists>ri \<in> set (request_items db). \<exists>i \<in> set (items db).
              ri_request_id ri = rid \<and> ri_item_id ri = i_id i \<and> h_item_id e = i_id i \<and>
              h_quantity_before e = i_quantity i \<and> h_quantity_change e = - ri_quantity ri \<and>
              (balanced e \<longleftrightarrow> ri_quantity ri \<le> i_quantity i))"
    if "e \<in> set ?es" for e
  proof -
    from that obtain r where "r \<in> set (request_lines db rid)" "e = request_entry rid ab r"
      by (auto simp: set_returned_rows)
    with request_entry_of_line[of r db rid ab] show ?thesis by simp
  qed
  ultimately show ?thesis by blast
next
  case False
  then have "stock_history (set_status_effect rank rid st ab now db) = stock_history db @ []"
    by (auto simp: set_status_effect_def update_request_status_frame)
  then show ?thesis by (intro exI[of _ "[]"]) simp
qed

lemma apply_updates_id [simp]: "i_id (apply_updates u i) = i_id i"
  by (simp add: apply_updates_def)

lemma apply_updates_quantity:
  "i_quantity (apply_updates u i) = (case u_quantity u of None \<Rightarrow> i_quantity i | Some q \<Rightarrow> q)"
  by (simp add: apply_updates_def)

lemma put_item_Ok:
  assumes "put_item k iid u db = (Ok_item it, db')"
  shows "\<exists>existing rest. filter (\<lambda>i. i_id i = iid) (items db) = existing # rest \<and>
           it = apply_updates u existing \<and> db' = put_effect iid u (i_quantity existing) db"
proof -
  from assms obtain k1 db1 where e1: "exec k reads db = Inr (k1, db1)"
    by (auto simp: put_item_def split: sum.splits)
  then have d1: "db1 = db" by (auto dest: exec_Inr simp: reads_def)
  from assms e1 obtain existing rest where f: "filter (\<lambda>i. i_id i = iid) (items db) = existing # rest"
    by (auto simp: put_item_def d1 split: list.splits)
  from assms e1 f have nu: "\<not> no_updates u"
    by (auto simp: put_item_def d1 Let_def split: if_splits)
  from assms e1 f nu obtain k2 db2 where e2: "exec k1 (update_item_fields u iid) db = Inr (k2, db2)"
    by (auto simp: put_item_def d1 Let_def split: sum.splits)
  then have d2: "db2 = update_item_fields u iid db" by (auto dest: exec_Inr)
  from assms e1 f nu e2 have "it = apply_updates u existing \<and> db' = put_effect iid u (i_quantity existing) db"
    by (auto simp: put_item_def d1 d2 Let_def put_effect_def split: option.splits if_splits sum.splits dest: exec_Inr)
  with f show ?thesis by blast
qed

lemma put_effect_keeps_ledger:
  assumes ch: "\<forall>iid. chained (item_history db iid)" and tr: "ledger_tracks_stock db"
    and ex: "existing \<in> set (items db)" "i_id existing = iid"
  shows "(\<forall>j. chained (item_history (put_effect iid u (i_quantity existing) db) j)) \<and>
         ledger_tracks_stock (put_effect iid u (i_quantity existing) db)"
proof -
  have last_old: "h_quantity_after (last (item_history db iid)) = i_quantity i"
    if "i \<in> set (items db)" "i_id i = iid" "item_history db iid \<noteq> []" for i
    using tr that by (auto simp: ledger_tracks_stock_def)
  show ?thesis
  proof (cases "u_quantity u")
    case None
    show ?thesis
      unfolding put_effect_def None option.case
      by (rule rewrite_keeps_ledger[OF ch tr, where iid = iid and g = "apply_updates u"])
         (simp_all add: update_item_fields_def apply_updates_quantity None last_old)
  next
    case (Some qty)
    show ?thesis
    proof (cases "qty = i_quantity existing")
      case True
      show ?thesis
        unfolding put_effect_def Some option.case
        using True
        by (simp, intro rewrite_keeps_ledger[OF ch tr, where iid = iid and g = "apply_updates u"])
           (simp_all add: update_item_fields_def apply_updates_quantity Some last_old[OF ex] )
    next
      case False
      show ?thesis
        unfolding put_effect_def Some option.case
        using False
        by (simp, intro write_with_entry_keeps_ledger[OF ch tr ex(1,2), where g = "apply_updates u"
              and e = "manual_entry iid u (i_quantity existing) qty"])
           (simp_all add: update_item_fields_def insert_history_def apply_updates_quantity Some manual_entry_def)
    qed
  qed
qed

lemma put_effect_entries:
  "\<exists>es. stock_history (put_effect iid u oldQty db) = stock_history db @ es \<and> (\<forall>e \<in> set es. balanced e)"
  by (auto simp: put_effect_def update_item_fields_def insert_history_def manual_entry_def balanced_def
        split: option.splits)

lemma put_item_entries:
  assumes "put_item k iid u db = (rep, db')"
  shows "\<exists>es. stock_history db' = stock_history db @ es \<and> (\<forall>e \<in> set es. balanced e)"
proof -
  have same: "\<exists>es. stock_history d = stock_history db @ es \<and> (\<forall>e \<in> set es. balanced e)"
    if "stock_history d = stock_history db" for d
    using that by (intro exI[of _ "[]"]) simp
  have one: "\<exists>es. stock_history d = stock_history db @ es \<and> (\<forall>e \<in> set es. balanced e)"
    if "stock_history d = stock_history db @ [manual_entry iid u q0 q]" for d q0 q
    using that by (intro exI[of _ "[manual_entry iid u q0 q]"]) (simp add: manual_entry_def balanced_def)
  from assms have "stock_history db' = stock_history db \<or>
      (\<exists>q0 q. stock_history db' = stock_history db @ [manual_entry iid u q0 q])"
    by (auto simp: put_item_def Let_def reads_def update_item_fields_def insert_history_def
          split: sum.splits list.splits option.splits if_splits dest!: exec_Inr) blast
  with same one show ?thesis by blast
qed

section \<open>Unfolding the handlers on the small warehouse\<close>

lemmas status_handler_defs = patch_request_status_def set_status_tx_def stock_phase_def reads_def
  returned_rows_def request_lines_def join_line_def update_item_stock_def insert_history_def
  request_entry_def
  newQty_def itemStatus_def update_request_status_def current_status_def

lemmas request_handler_defs = post_request_def create_request_tx_def insert_request_def
  insert_request_item_def reads_def

lemmas item_handler_defs = put_item_def post_item_def delete_item_def reads_def no_updates_def
  apply_updates_def update_item_fields_def manual_entry_def actualNotes_def insert_history_def
  created_row_def insert_item_def deactivate_item_def Let_def

lemmas ledger_defs = ledger_chained_def ledger_tracks_stock_def item_history_def balanced_def

lemmas warehouse_defs = store_def shelves_def first_delivery_def paper_def toner_def order1_def line1_def
  as_inserted_def three_last_def set_quantity_def
  empty_shelf_def audit_order_def

section \<open>Approval: stock deduction and history\<close>

lemma itemStatus_spec: "0 \<le> q \<Longrightarrow> itemStatus q m = spec_status q m"
  by (auto simp: itemStatus_def spec_status_def)

lemma newQty_nonneg: "0 \<le> newQty r"
  by (simp add: newQty_def)

lemma deduct_line_items:
  "items (deduct_line rid ab r db) =
     map (\<lambda>i. if i_id i = l_item_id r
               then i\<lparr>i_quantity := newQty r, i_status := Some (itemStatus (newQty r) (l_minQuantity r))\<rparr>
               else i) (items db)"
  by (simp add: deduct_line_def insert_history_def update_item_stock_def)

lemma deduct_line_untouched:
  assumes "l_item_id r \<noteq> j"
  shows "filter (\<lambda>i. i_id i = j) (items (deduct_line rid ab r db)) = filter (\<lambda>i. i_id i = j) (items db)"
proof -
  have "filter (\<lambda>i. i_id i = j) (map (\<lambda>i. if i_id i = l_item_id r
               then i\<lparr>i_quantity := newQty r, i_status := Some (itemStatus (newQty r) (l_minQuantity r))\<rparr>
               else i) xs) = filter (\<lambda>i. i_id i = j) xs" for xs
    using assms by (induction xs) auto
  then show ?thesis by (simp add: deduct_line_items)
qed

lemma deduct_all_untouched:
  "\<forall>r \<in> set rs. l_item_id r \<noteq> j \<Longrightarrow>
     filter (\<lambda>i. i_id i = j) (items (deduct_all rid ab rs db)) = filter (\<lambda>i. i_id i = j) (items db)"
  by (induction rs arbitrary: db) (simp_all add: deduct_line_untouched)

lemma deduct_all_quantity:
  assumes "distinct (map l_item_id rs)" "r \<in> set rs"
    and "i \<in> set (items (deduct_all rid ab rs db))" "i_id i = l_item_id r"
  shows "i_quantity i = newQty r \<and> i_status i = Some (itemStatus (newQty r) (l_minQuantity r))"
  using assms
proof (induction rs arbitrary: db)
  case Nil
  then show ?case by simp
next
  case (Cons a rs)
  show ?case
  proof (cases "r = a")
    case True
    from Cons.prems(1) have "l_item_id a \<notin> l_item_id ` set rs" by simp
    then have "\<forall>r' \<in> set rs. l_item_id r' \<noteq> l_item_id a" by (metis image_eqI)
    from deduct_all_untouched[OF this, of rid ab "deduct_line rid ab a db"]
    have "filter (\<lambda>i. i_id i = l_item_id a) (items (deduct_all rid ab (a # rs) db))
        = filter (\<lambda>i. i_id i = l_item_id a) (items (deduct_line rid ab a db))" by simp
    moreover from Cons.prems(3,4) True
    have "i \<in> set (filter (\<lambda>i. i_id i = l_item_id a) (items (deduct_all rid ab (a # rs) db)))" by simp
    ultimately have "i \<in> set (items (deduct_line rid ab a db))" by simp
    with Cons.prems(4) True show ?thesis by (auto simp: deduct_line_items)
  next
    case False
    with Cons.prems have "r \<in> set rs" "distinct (map l_item_id rs)"
      "i \<in> set (items (deduct_all rid ab rs (deduct_line rid ab a db)))" by simp_all
    from Cons.IH[OF this(2,1,3) Cons.prems(4)] show ?thesis .
  qed
qed

text \<open>
  When the lines of a request name pairwise distinct items, an approval that succeeds
  leaves each of them with \<open>max 0 (current - requested)\<close> and with the status the
  specification derives from that quantity. No quantity makes the call fail: it
  succeeds whenever the request exists and no statement throws.
\<close>

lemma approval_deducts_distinct_lines:
  assumes "current_status db rid \<noteq> Some (Some ''approved'')"
      and "patch_request_status k rank rid (Some ''approved'') approved_by now db = (Ok_success, db')"
      and "distinct (map l_item_id (request_lines db rid))"
      and "ri \<in> set (request_items db)" "ri_request_id ri = rid"
      and "i \<in> set (items db)" "i_id i = ri_item_id ri"
      and "i' \<in> set (items db')" "i_id i' = i_id i"
  shows "i_quantity i' = max 0 (i_quantity i - ri_quantity ri) \<and>
         i_status i' = Some (spec_status (i_quantity i') (i_minQuantity i))"
proof -
  from assms(2) have "db' = set_status_effect rank rid (Some ''approved'') approved_by now db"
    by (auto dest: patch_cases)
  with assms(1) have it: "items db' = items (deduct_all rid approved_by (returned_rows rank db rid) db)"
    by (simp add: set_status_effect_def update_request_status_frame)
  have "join_line ri i \<in> set (request_lines db rid)"
    using assms(4-7) by (intro request_lines_complete) simp_all
  then have r: "join_line ri i \<in> set (returned_rows rank db rid)"
    by (simp add: set_returned_rows)
  from assms(3) have d: "distinct (map l_item_id (returned_rows rank db rid))"
    by (simp add: distinct_returned_rows)
  from deduct_all_quantity[OF d r, of i' rid approved_by db] assms(8,9,7)
  have "i_quantity i' = newQty (join_line ri i)"
    "i_status i' = Some (itemStatus (newQty (join_line ri i)) (l_minQuantity (join_line ri i)))"
    by (simp_all add: it join_line_def)
  then show ?thesis
    using newQty_nonneg[of "join_line ri i"]
    by (simp add: itemStatus_spec) (simp add: newQty_def join_line_def)
qed

lemma status_call_succeeds_without_fault:
  "current_status db rid \<noteq> None \<Longrightarrow>
     patch_request_status None rank rid st approved_by now db
       = (Ok_success, set_status_effect rank rid st approved_by now db)"
  by (simp add: patch_request_status_def set_status_tx_None)

text \<open>
  C1. A request may name one item on two lines: the request handler inserts the lines
  as the body lists them. The approval reads every quantity once, before its loop, so
  the second line is deducted from the quantity the item had before the first line:
  with 10 in stock and lines of 3 and 4 the stored quantity ends at 6, where deducting
  each line from the current quantity gives 3. The deduction of the first line is lost.
  When the rows come back in the other order the stored quantity ends at 7, and the
  deduction of the line of 4 is lost.
\<close>

theorem repeated_item_loses_a_deduction:
  "post_request None ''r1'' (audit_order [(1, 3), (1, 4)]) 0 shelves
     = (Created_id ''r1'', store (Some ''pending'') [(1, 3), (1, 4)]) \<and>
   patch_request_status None as_inserted ''r1'' (Some ''approved'') (Some ''mgr'') 7
       (store (Some ''pending'') [(1, 3), (1, 4)])
     = (Ok_success,
        (store (Some ''approved'') [(1, 3), (1, 4)])
          \<lparr>items := [paper\<lparr>i_quantity := 6\<rparr>, toner],
           requests := [(order1 (Some ''approved''))\<lparr>r_updatedAt := 7\<rparr>],
           stock_history :=
             [\<lparr>h_item_id = 1, h_change_type = ''request'', h_quantity_before = 10,
               h_quantity_change = - 3, h_quantity_after = 7, h_notes = ''Approved request r1'',
               h_created_by = Some ''mgr''\<rparr>,
              \<lparr>h_item_id = 1, h_change_type = ''request'', h_quantity_before = 10,
               h_quantity_change = - 4, h_quantity_after = 6, h_notes = ''Approved request r1'',
               h_created_by = Some ''mgr''\<rparr>]\<rparr>) \<and>
   patch_request_status None three_last ''r1'' (Some ''approved'') (Some ''mgr'') 7
       (store (Some ''pending'') [(1, 3), (1, 4)])
     = (Ok_success,
        (store (Some ''approved'') [(1, 3), (1, 4)])
          \<lparr>items := [paper\<lparr>i_quantity := 7\<rparr>, toner],
           requests := [(order1 (Some ''approved''))\<lparr>r_updatedAt := 7\<rparr>],
           stock_history :=
             [\<lparr>h_item_id = 1, h_change_type = ''request'', h_quantity_before = 10,
               h_quantity_change = - 4, h_quantity_after = 6, h_notes = ''Approved request r1'',
               h_created_by = Some ''mgr''\<rparr>,
              \<lparr>h_item_id = 1, h_change_type = ''request'', h_quantity_before = 10,
               h_quantity_change = - 3, h_quantity_after = 7, h_notes = ''Approved request r1'',
               h_created_by = Some ''mgr''\<rparr>]\<rparr>)"
  by (simp add: request_handler_defs status_handler_defs warehouse_defs)

text \<open>
  C2. Approving a request that is already approved deducts no stock and appends no
  history; so after a first approval that succeeded, a second one leaves every item and
  the history as the first one left them.
\<close>

theorem approve_twice_deducts_once:
  "(current_status db rid = Some (Some ''approved'') \<longrightarrow>
      items (snd (patch_request_status k rank rid (Some ''approved'') ab now db)) = items db \<and>
      stock_history (snd (patch_request_status k rank rid (Some ''approved'') ab now db)) = stock_history db)
   \<and> (fst (patch_request_status k1 rank1 rid (Some ''approved'') ab1 now1 db) = Ok_success \<longrightarrow>
      items (snd (patch_request_status k2 rank2 rid (Some ''approved'') ab2 now2
                (snd (patch_request_status k1 rank1 rid (Some ''approved'') ab1 now1 db))))
        = items (snd (patch_request_status k1 rank1 rid (Some ''approved'') ab1 now1 db)) \<and>
      stock_history (snd (patch_request_status k2 rank2 rid (Some ''approved'') ab2 now2
                (snd (patch_request_status k1 rank1 rid (Some ''approved'') ab1 now1 db))))
        = stock_history (snd (patch_request_status k1 rank1 rid (Some ''approved'') ab1 now1 db)))"
proof -
  have noop: "items db2 = items db1 \<and> stock_history db2 = stock_history db1"
    if "current_status db1 rid = Some (Some ''approved'')"
       and "patch_request_status k' rank' rid (Some ''approved'') ab' now' db1 = (rep, db2)"
    for k' rank' ab' now' db1 rep db2
    using patch_cases[OF that(2)] that(1)
    by (auto simp: reapprove_effect update_request_status_frame)
  have first: "current_status db1 rid = Some (Some ''approved'')"
    if "patch_request_status k1 rank1 rid (Some ''approved'') ab1 now1 db = (Ok_success, db1)" for db1
    using patch_cases[OF that] by (auto simp: set_status_effect_status)
  show ?thesis
  proof (intro conjI impI)
    assume a: "current_status db rid = Some (Some ''approved'')"
    obtain rep db' where p: "patch_request_status k rank rid (Some ''approved'') ab now db = (rep, db')"
      by (cases "patch_request_status k rank rid (Some ''approved'') ab now db")
    from noop[OF a p] show "items (snd (patch_request_status k rank rid (Some ''approved'') ab now db)) = items db"
      and "stock_history (snd (patch_request_status k rank rid (Some ''approved'') ab now db)) = stock_history db"
      by (simp_all add: p)
  next
    assume ok: "fst (patch_request_status k1 rank1 rid (Some ''approved'') ab1 now1 db) = Ok_success"
    obtain db1 where p1: "patch_request_status k1 rank1 rid (Some ''approved'') ab1 now1 db = (Ok_success, db1)"
      using ok by (cases "patch_request_status k1 rank1 rid (Some ''approved'') ab1 now1 db") auto
    obtain rep db2 where p2: "patch_request_status k2 rank2 rid (Some ''approved'') ab2 now2 db1 = (rep, db2)"
      by (cases "patch_request_status k2 rank2 rid (Some ''approved'') ab2 now2 db1")
    from noop[OF first[OF p1] p2]
    show "items (snd (patch_request_status k2 rank2 rid (Some ''approved'') ab2 now2
                (snd (patch_request_status k1 rank1 rid (Some ''approved'') ab1 now1 db))))
        = items (snd (patch_request_status k1 rank1 rid (Some ''approved'') ab1 now1 db))"
      and "stock_history (snd (patch_request_status k2 rank2 rid (Some ''approved'') ab2 now2
                (snd (patch_request_status k1 rank1 rid (Some ''approved'') ab1 now1 db))))
        = stock_history (snd (patch_request_status k1 rank1 rid (Some ''approved'') ab1 now1 db))"
      by (simp_all add: p1 p2)
  qed
qed

theorem approve_twice_deducts_once_witness:
  "current_status (store (Some ''approved'') [(1, 5)]) ''r1'' = Some (Some ''approved'') \<and>
   items (snd (patch_request_status None as_inserted ''r1'' (Some ''approved'') (Some ''mgr'') 7
           (store (Some ''approved'') [(1, 5)]))) = [paper, toner] \<and>
   fst (patch_request_status None as_inserted ''r1'' (Some ''approved'') (Some ''mgr'') 7
           (store (Some ''pending'') [(1, 5)])) = Ok_success \<and>
   map i_quantity (items (snd (patch_request_status None as_inserted ''r1'' (Some ''approved'') (Some ''mgr'') 8
           (snd (patch_request_status None as_inserted ''r1'' (Some ''approved'') (Some ''mgr'') 7
              (store (Some ''pending'') [(1, 5)]))))))
     = [5, 4] \<and>
   length (stock_history (snd (patch_request_status None as_inserted ''r1'' (Some ''approved'') (Some ''mgr'') 8
           (snd (patch_request_status None as_inserted ''r1'' (Some ''approved'') (Some ''mgr'') 7
              (store (Some ''pending'') [(1, 5)])))))) = 1"
proof -
  have a: "current_status (store (Some ''approved'') [(1, 5)]) ''r1'' = Some (Some ''approved'')"
    by (simp add: status_handler_defs warehouse_defs)
  have b: "fst (patch_request_status None as_inserted ''r1'' (Some ''approved'') (Some ''mgr'') 7
           (store (Some ''pending'') [(1, 5)])) = Ok_success"
    by (simp add: status_handler_defs warehouse_defs)
  have once: "map i_quantity (items (snd (patch_request_status None as_inserted ''r1'' (Some ''approved'') (Some ''mgr'') 7
              (store (Some ''pending'') [(1, 5)])))) = [5, 4]"
    "length (stock_history (snd (patch_request_status None as_inserted ''r1'' (Some ''approved'') (Some ''mgr'') 7
              (store (Some ''pending'') [(1, 5)])))) = 1"
    by (simp_all add: status_handler_defs warehouse_defs)
  from approve_twice_deducts_once[where db = "store (Some ''approved'') [(1, 5)]" and rid = "''r1''"
        and k = None and rank = as_inserted and ab = "Some ''mgr''" and now = 7] a
  have first: "items (snd (patch_request_status None as_inserted ''r1'' (Some ''approved'') (Some ''mgr'') 7
           (store (Some ''approved'') [(1, 5)]))) = items (store (Some ''approved'') [(1, 5)])"
    by blast
  from approve_twice_deducts_once[where db = "store (Some ''pending'') [(1, 5)]" and rid = "''r1''"
        and ?k1.0 = None and ?rank1.0 = as_inserted and ?ab1.0 = "Some ''mgr''" and ?now1.0 = 7
        and ?k2.0 = None and ?rank2.0 = as_inserted and ?ab2.0 = "Some ''mgr''" and ?now2.0 = 8] b
  have second: "items (snd (patch_request_status None as_inserted ''r1'' (Some ''approved'') (Some ''mgr'') 8
           (snd (patch_request_status None as_inserted ''r1'' (Some ''approved'') (Some ''mgr'') 7
              (store (Some ''pending'') [(1, 5)])))))
      = items (snd (patch_request_status None as_inserted ''r1'' (Some ''approved'') (Some ''mgr'') 7
              (store (Some ''pending'') [(1, 5)])))"
    "stock_history (snd (patch_request_status None as_inserted ''r1'' (Some ''approved'') (Some ''mgr'') 8
           (snd (patch_request_status None as_inserted ''r1'' (Some ''approved'') (Some ''mgr'') 7
              (store (Some ''pending'') [(1, 5)])))))
      = stock_history (snd (patch_request_status None as_inserted ''r1'' (Some ''approved'') (Some ''mgr'') 7
              (store (Some ''pending'') [(1, 5)])))"
    by blast+
  show ?thesis
    using a b once first
    unfolding second
    by (simp add: store_def shelves_def)
qed

text \<open>
  C3. A status call either replies with success, having run every one of its statements
  and written all of its effects (every line's deduction, every history row, the
  request's status), or replies with an error and leaves the tables exactly as they
  were. A failure at any statement gives the second case.
\<close>

theorem set_status_atomic:
  assumes "patch_request_status k rank rid st approved_by now db = (rep, db')"
  shows "(rep = Ok_success \<and> current_status db rid \<noteq> None \<and>
          (\<forall>n. k = Some n \<longrightarrow> statements rid st db \<le> n) \<and>
          db' = set_status_effect rank rid st approved_by now db)
       \<or> ((\<exists>e. rep = Server_error e) \<and> db' = db)"
proof (cases "set_status_tx k rank rid st approved_by now db")
  case (Inl e)
  with assms show ?thesis by (auto simp: patch_request_status_def)
next
  case (Inr d)
  with assms have "rep = Ok_success" "db' = d" by (simp_all add: patch_request_status_def)
  moreover from set_status_tx_Inr[OF Inr]
  have "current_status db rid \<noteq> None" "d = set_status_effect rank rid st approved_by now db" by simp_all
  moreover have "statements rid st db \<le> n" if "k = Some n" for n
    using Inr that by (auto dest: set_status_tx_Some_Inr)
  ultimately show ?thesis by blast
qed

theorem set_status_atomic_witness:
  "statements ''r1'' (Some ''approved'') (store (Some ''pending'') [(1, 5), (2, 1)]) = 9 \<and>
   patch_request_status (Some 5) as_inserted ''r1'' (Some ''approved'') (Some ''mgr'') 7
      (store (Some ''pending'') [(1, 5), (2, 1)])
     = (Server_error DbError, store (Some ''pending'') [(1, 5), (2, 1)]) \<and>
   fst (patch_request_status (Some 9) as_inserted ''r1'' (Some ''approved'') (Some ''mgr'') 7
      (store (Some ''pending'') [(1, 5), (2, 1)])) = Ok_success \<and>
   map i_quantity (items (snd (patch_request_status (Some 9) as_inserted ''r1'' (Some ''approved'') (Some ''mgr'') 7
      (store (Some ''pending'') [(1, 5), (2, 1)])))) = [5, 3]"
proof -
  let ?db = "store (Some ''pending'') [(1, 5), (2, 1)]"
  have n: "statements ''r1'' (Some ''approved'') ?db = 9"
    by (simp add: statements_def status_handler_defs warehouse_defs)
  obtain rep db' where p: "patch_request_status (Some 5) as_inserted ''r1'' (Some ''approved'') (Some ''mgr'') 7 ?db = (rep, db')"
    by (cases "patch_request_status (Some 5) as_inserted ''r1'' (Some ''approved'') (Some ''mgr'') 7 ?db")
  from set_status_atomic[OF p] n have "(\<exists>e. rep = Server_error e) \<and> db' = ?db"
    by auto
  moreover have "fst (patch_request_status (Some 5) as_inserted ''r1'' (Some ''approved'') (Some ''mgr'') 7 ?db) = Server_error DbError"
    by (simp add: status_handler_defs warehouse_defs eval_nat_numeral)
  ultimately have fail: "patch_request_status (Some 5) as_inserted ''r1'' (Some ''approved'') (Some ''mgr'') 7 ?db
     = (Server_error DbError, ?db)"
    using p by simp
  have ok: "fst (patch_request_status (Some 9) as_inserted ''r1'' (Some ''approved'') (Some ''mgr'') 7 ?db) = Ok_success"
    "map i_quantity (items (snd (patch_request_status (Some 9) as_inserted ''r1'' (Some ''approved'') (Some ''mgr'') 7 ?db))) = [5, 3]"
    by (simp_all add: status_handler_defs warehouse_defs eval_nat_numeral)
  from n fail ok show ?thesis by simp
qed

text \<open>
  C4. The stored status is not recomputed when an item is created or updated by hand.
  A new item with quantity 0 is stored, and returned, as \<open>in-stock\<close>, where the rule of
  the specification gives \<open>out-of-stock\<close>; lowering a quantity to the reorder threshold
  leaves \<open>in-stock\<close>, where the rule gives \<open>low-stock\<close>.
\<close>

theorem stored_status_not_recomputed:
  "post_item None empty_shelf shelves
     = (Created_item (created_row empty_shelf shelves),
        shelves\<lparr>items := [paper, toner, created_row empty_shelf shelves], items_id_seq := 3\<rparr>) \<and>
   i_quantity (created_row empty_shelf shelves) = 0 \<and>
   i_minQuantity (created_row empty_shelf shelves) = 3 \<and>
   i_status (created_row empty_shelf shelves) = Some ''in-stock'' \<and>
   spec_status 0 3 = ''out-of-stock'' \<and>
   put_item None 1 (set_quantity 2) shelves
     = (Ok_item (paper\<lparr>i_quantity := 2\<rparr>),
        shelves\<lparr>items := [paper\<lparr>i_quantity := 2\<rparr>, toner],
          stock_history := [\<lparr>h_item_id = 1, h_change_type = ''adjustment'', h_quantity_before = 10,
              h_quantity_change = - 8, h_quantity_after = 2, h_notes = ''Manual update'',
              h_created_by = Some ''u1''\<rparr>]\<rparr>) \<and>
   i_minQuantity (paper\<lparr>i_quantity := 2\<rparr>) = 2 \<and>
   i_status (paper\<lparr>i_quantity := 2\<rparr>) = Some ''in-stock'' \<and>
   spec_status 2 2 = ''low-stock''"
  by (simp add: item_handler_defs warehouse_defs spec_status_def)

text \<open>
  What an approval appends: one entry for each row of the join, in the order in which the
  rows came back, each with the negative of the requested quantity as its change.
\<close>

lemma approval_appends_one_entry_per_row:
  assumes "current_status db rid \<noteq> Some (Some ''approved'')"
      and "patch_request_status k rank rid (Some ''approved'') approved_by now db = (Ok_success, db')"
  shows "stock_history db' =
           stock_history db @ map (request_entry rid approved_by) (returned_rows rank db rid)"
proof -
  from assms(2) have "db' = set_status_effect rank rid (Some ''approved'') approved_by now db"
    by (auto dest: patch_cases)
  with assms(1) show ?thesis
    by (simp add: set_status_effect_def update_request_status_frame deduct_all_history)
qed

text \<open>
  C5. An entry records as quantity before the quantity the join read before the loop,
  not the quantity the item holds when the entry is written. For a request with lines
  of 3 and 4 on one item with 10 in stock, both rows of the join carry 10; the turn of
  the loop for the line of 3 leaves the item at 7, and the entry for the line of 4 still
  records 10 as quantity before, in either order of the rows. Change and quantity after
  are as the claim says: the negative of the requested quantity, and the clamped value.
\<close>

theorem repeated_item_records_stale_before:
  "map current_qty (returned_rows as_inserted (store (Some ''pending'') [(1, 3), (1, 4)]) ''r1'')
     = [10, 10] \<and>
   map i_quantity (items (deduct_line ''r1'' (Some ''mgr'') (join_line (line1 (1, 3)) paper)
       (store (Some ''pending'') [(1, 3), (1, 4)]))) = [7, 4] \<and>
   stock_history (snd (patch_request_status None as_inserted ''r1'' (Some ''approved'') (Some ''mgr'') 7
       (store (Some ''pending'') [(1, 3), (1, 4)])))
     = [\<lparr>h_item_id = 1, h_change_type = ''request'', h_quantity_before = 10,
         h_quantity_change = - 3, h_quantity_after = 7, h_notes = ''Approved request r1'',
         h_created_by = Some ''mgr''\<rparr>,
        \<lparr>h_item_id = 1, h_change_type = ''request'', h_quantity_before = 10,
         h_quantity_change = - 4, h_quantity_after = 6, h_notes = ''Approved request r1'',
         h_created_by = Some ''mgr''\<rparr>] \<and>
   stock_history (snd (patch_request_status None three_last ''r1'' (Some ''approved'') (Some ''mgr'') 7
       (store (Some ''pending'') [(1, 3), (1, 4)])))
     = [\<lparr>h_item_id = 1, h_change_type = ''request'', h_quantity_before = 10,
         h_quantity_change = - 4, h_quantity_after = 6, h_notes = ''Approved request r1'',
         h_created_by = Some ''mgr''\<rparr>,
        \<lparr>h_item_id = 1, h_change_type = ''request'', h_quantity_before = 10,
         h_quantity_change = - 3, h_quantity_after = 7, h_notes = ''Approved request r1'',
         h_created_by = Some ''mgr''\<rparr>]"
  by (simp add: status_handler_defs deduct_line_def warehouse_defs)

text \<open>
  C6, amended. Every entry a manual update writes has \<open>after = before + change\<close>. Every
  entry an approval writes belongs to a line of the request and its item: its change is
  the negative of the line's requested quantity, its quantity before is the quantity
  the tables held for the item before the call, and its quantity after is
  \<open>max 0 (before + change)\<close>; so it has \<open>after = before + change\<close> exactly when the
  requested quantity does not exceed that quantity. Both hold for every call, whatever
  its outcome. On a ledger whose entries are chained item by item and whose last entry
  for each item agrees with the stored quantity, a manual update that replies with the
  item, and an approval that replies with success for a request whose rows name pairwise
  distinct items, keep both properties of the ledger.
\<close>

theorem ledger_entries_and_chain:
  "(put_item k iid u db = (rep, db1) \<longrightarrow>
      (\<exists>es. stock_history db1 = stock_history db @ es \<and> (\<forall>e \<in> set es. balanced e)))
   \<and> (patch_request_status k' rank rid st approved_by now db = (rep', db2) \<longrightarrow>
      (\<exists>es. stock_history db2 = stock_history db @ es \<and>
         (\<forall>e \<in> set es.
            h_quantity_after e = max 0 (h_quantity_before e + h_quantity_change e) \<and>
            (\<exists>ri \<in> set (request_items db). \<exists>i \<in> set (items db).
               ri_request_id ri = rid \<and> ri_item_id ri = i_id i \<and> h_item_id e = i_id i \<and>
               h_quantity_before e = i_quantity i \<and> h_quantity_change e = - ri_quantity ri \<and>
               (balanced e \<longleftrightarrow> ri_quantity ri \<le> i_quantity i)))))
   \<and> (ledger_chained db \<and> ledger_tracks_stock db \<longrightarrow>
        (put_item k iid u db = (Ok_item it, db3) \<longrightarrow>
           ledger_chained db3 \<and> ledger_tracks_stock db3) \<and>
        (patch_request_status k' rank rid st approved_by now db = (Ok_success, db4) \<and>
           distinct (map l_item_id (request_lines db rid)) \<longrightarrow>
           ledger_chained db4 \<and> ledger_tracks_stock db4))"
proof -
  have entries_put: "\<exists>es. stock_history db1 = stock_history db @ es \<and> (\<forall>e \<in> set es. balanced e)"
    if "put_item k iid u db = (rep, db1)"
    using that by (rule put_item_entries)
  have entries_approval: "\<exists>es. stock_history db2 = stock_history db @ es \<and>
         (\<forall>e \<in> set es.
            h_quantity_after e = max 0 (h_quantity_before e + h_quantity_change e) \<and>
            (\<exists>ri \<in> set (request_items db). \<exists>i \<in> set (items db).
               ri_request_id ri = rid \<and> ri_item_id ri = i_id i \<and> h_item_id e = i_id i \<and>
               h_quantity_before e = i_quantity i \<and> h_quantity_change e = - ri_quantity ri \<and>
               (balanced e \<longleftrightarrow> ri_quantity ri \<le> i_quantity i)))"
    if p: "patch_request_status k' rank rid st approved_by now db = (rep', db2)"
  proof -
    from patch_cases[OF p] consider
      "db2 = set_status_effect rank rid st approved_by now db" | "db2 = db" by blast
    then show ?thesis
    proof cases
      case 1
      show ?thesis unfolding 1 by (rule set_status_effect_entries)
    next
      case 2
      show ?thesis unfolding 2 by (intro exI[of _ "[]"]) simp
    qed
  qed
  have chain_put: "ledger_chained db3 \<and> ledger_tracks_stock db3"
    if l: "ledger_chained db \<and> ledger_tracks_stock db"
      and p: "put_item k iid u db = (Ok_item it, db3)"
  proof -
    from put_item_Ok[OF p] obtain existing rest where
      f: "filter (\<lambda>i. i_id i = iid) (items db) = existing # rest"
      and eff: "db3 = put_effect iid u (i_quantity existing) db" by blast
    from f have "existing \<in> set (filter (\<lambda>i. i_id i = iid) (items db))" by simp
    then have ex: "existing \<in> set (items db)" "i_id existing = iid" by simp_all
    from l have ch: "\<forall>iid. chained (item_history db iid)" and tr: "ledger_tracks_stock db"
      by (simp_all add: ledger_chained_all)
    from put_effect_keeps_ledger[OF ch tr ex, of u]
    show ?thesis by (simp add: eff ledger_chained_all)
  qed
  have chain_approval: "ledger_chained db4 \<and> ledger_tracks_stock db4"
    if l: "ledger_chained db \<and> ledger_tracks_stock db"
      and a: "patch_request_status k' rank rid st approved_by now db = (Ok_success, db4) \<and>
           distinct (map l_item_id (request_lines db rid))"
  proof -
    from a have eff: "db4 = set_status_effect rank rid st approved_by now db"
      by (auto dest: patch_cases)
    from l a set_status_effect_keeps_ledger[of db rid rank st approved_by now]
    show ?thesis by (simp add: eff)
  qed
  from entries_put entries_approval chain_put chain_approval show ?thesis by blast
qed

theorem ledger_entries_and_chain_witness:
  "ledger_chained ((store (Some ''pending'') [(1, 20), (2, 1)])\<lparr>stock_history := [first_delivery]\<rparr>) \<and>
   ledger_tracks_stock ((store (Some ''pending'') [(1, 20), (2, 1)])\<lparr>stock_history := [first_delivery]\<rparr>) \<and>
   distinct (map l_item_id (request_lines
       ((store (Some ''pending'') [(1, 20), (2, 1)])\<lparr>stock_history := [first_delivery]\<rparr>) ''r1'')) \<and>
   put_item None 1 (set_quantity 7)
       ((store (Some ''pending'') [(1, 20), (2, 1)])\<lparr>stock_history := [first_delivery]\<rparr>)
     = (Ok_item (paper\<lparr>i_quantity := 7\<rparr>),
        (store (Some ''pending'') [(1, 20), (2, 1)])
          \<lparr>items := [paper\<lparr>i_quantity := 7\<rparr>, toner],
           stock_history := [first_delivery,
             \<lparr>h_item_id = 1, h_change_type = ''adjustment'', h_quantity_before = 10,
              h_quantity_change = - 3, h_quantity_after = 7, h_notes = ''Manual update'',
              h_created_by = Some ''u1''\<rparr>]\<rparr>) \<and>
   ledger_chained (snd (put_item None 1 (set_quantity 7)
       ((store (Some ''pending'') [(1, 20), (2, 1)])\<lparr>stock_history := [first_delivery]\<rparr>))) \<and>
   ledger_tracks_stock (snd (put_item None 1 (set_quantity 7)
       ((store (Some ''pending'') [(1, 20), (2, 1)])\<lparr>stock_history := [first_delivery]\<rparr>))) \<and>
   fst (patch_request_status None as_inserted ''r1'' (Some ''approved'') (Some ''mgr'') 7
       ((store (Some ''pending'') [(1, 20), (2, 1)])\<lparr>stock_history := [first_delivery]\<rparr>)) = Ok_success \<and>
   map h_quantity_before (stock_history (snd (patch_request_status None as_inserted ''r1'' (Some ''approved'') (Some ''mgr'') 7
       ((store (Some ''pending'') [(1, 20), (2, 1)])\<lparr>stock_history := [first_delivery]\<rparr>)))) = [0, 10, 4] \<and>
   map h_quantity_change (stock_history (snd (patch_request_status None as_inserted ''r1'' (Some ''approved'') (Some ''mgr'') 7
       ((store (Some ''pending'') [(1, 20), (2, 1)])\<lparr>stock_history := [first_delivery]\<rparr>)))) = [10, - 20, - 1] \<and>
   map h_quantity_after (stock_history (snd (patch_request_status None as_inserted ''r1'' (Some ''approved'') (Some ''mgr'') 7
       ((store (Some ''pending'') [(1, 20), (2, 1)])\<lparr>stock_history := [first_delivery]\<rparr>)))) = [10, 0, 3] \<and>
   ledger_chained (snd (patch_request_status None as_inserted ''r1'' (Some ''approved'') (Some ''mgr'') 7
       ((store (Some ''pending'') [(1, 20), (2, 1)])\<lparr>stock_history := [first_delivery]\<rparr>))) \<and>
   ledger_tracks_stock (snd (patch_request_status None as_inserted ''r1'' (Some ''approved'') (Some ''mgr'') 7
       ((store (Some ''pending'') [(1, 20), (2, 1)])\<lparr>stock_history := [first_delivery]\<rparr>)))"
proof -
  let ?db = "(store (Some ''pending'') [(1, 20), (2, 1)])\<lparr>stock_history := [first_delivery]\<rparr>"
  let ?put = "put_item None 1 (set_quantity 7) ?db"
  let ?app = "patch_request_status None as_inserted ''r1'' (Some ''approved'') (Some ''mgr'') 7 ?db"
  have a: "ledger_chained ?db" by (simp add: ledger_defs warehouse_defs)
  have b: "ledger_tracks_stock ?db" by (simp add: ledger_defs warehouse_defs)
  have p: "?put = (Ok_item (paper\<lparr>i_quantity := 7\<rparr>),
        (store (Some ''pending'') [(1, 20), (2, 1)])
          \<lparr>items := [paper\<lparr>i_quantity := 7\<rparr>, toner],
           stock_history := [first_delivery,
             \<lparr>h_item_id = 1, h_change_type = ''adjustment'', h_quantity_before = 10,
              h_quantity_change = - 3, h_quantity_after = 7, h_notes = ''Manual update'',
              h_created_by = Some ''u1''\<rparr>]\<rparr>)"
    by (simp add: item_handler_defs warehouse_defs)
  then have p': "?put = (Ok_item (paper\<lparr>i_quantity := 7\<rparr>), snd ?put)" by simp
  have ok: "fst ?app = Ok_success" by (simp add: status_handler_defs warehouse_defs)
  then have q: "?app = (Ok_success, snd ?app)" by (metis prod.collapse)
  have d: "distinct (map l_item_id (request_lines ?db ''r1''))"
    by (simp add: status_handler_defs warehouse_defs)
  have h: "map h_quantity_before (stock_history (snd ?app)) = [0, 10, 4]"
    "map h_quantity_change (stock_history (snd ?app)) = [10, - 20, - 1]"
    "map h_quantity_after (stock_history (snd ?app)) = [10, 0, 3]"
    by (simp_all add: status_handler_defs warehouse_defs)
  from ledger_entries_and_chain[where db = ?db and k = None and iid = 1 and u = "set_quantity 7"
        and it = "paper\<lparr>i_quantity := 7\<rparr>" and ?db3.0 = "snd ?put"
        and k' = None and rank = as_inserted and rid = "''r1''" and st = "Some ''approved''"
        and approved_by = "Some ''mgr''" and now = 7 and ?db4.0 = "snd ?app"] a b p' q d
  have "ledger_chained (snd ?put)" "ledger_tracks_stock (snd ?put)"
    "ledger_chained (snd ?app)" "ledger_tracks_stock (snd ?app)"
    by blast+
  with a b d p ok h show ?thesis by simp
qed

text \<open>
  The claim as the specification states it fails twice: an approval of 20 units against
  10 in stock writes an entry with \<open>10 - 20 \<noteq> 0\<close>, and an approval of two lines on one
  item writes two entries that both start at 10.
\<close>

theorem ledger_broken_by_clamp_and_by_repeated_item:
  "stock_history (snd (patch_request_status None as_inserted ''r1'' (Some ''approved'') (Some ''mgr'') 7
       (store (Some ''pending'') [(1, 20)])))
     = [\<lparr>h_item_id = 1, h_change_type = ''request'', h_quantity_before = 10,
         h_quantity_change = - 20, h_quantity_after = 0, h_notes = ''Approved request r1'',
         h_created_by = Some ''mgr''\<rparr>] \<and>
   \<not> balanced \<lparr>h_item_id = 1, h_change_type = ''request'', h_quantity_before = 10,
         h_quantity_change = - 20, h_quantity_after = 0, h_notes = ''Approved request r1'',
         h_created_by = Some ''mgr''\<rparr> \<and>
   map h_quantity_after
     (item_history (snd (patch_request_status None as_inserted ''r1'' (Some ''approved'') (Some ''mgr'') 7
       (store (Some ''pending'') [(1, 3), (1, 4)]))) 1) = [7, 6] \<and>
   map h_quantity_before
     (item_history (snd (patch_request_status None as_inserted ''r1'' (Some ''approved'') (Some ''mgr'') 7
       (store (Some ''pending'') [(1, 3), (1, 4)]))) 1) = [10, 10] \<and>
   \<not> ledger_chained (snd (patch_request_status None as_inserted ''r1'' (Some ''approved'') (Some ''mgr'') 7
       (store (Some ''pending'') [(1, 3), (1, 4)])))"
  by (simp add: status_handler_defs warehouse_defs ledger_defs)

text \<open>
  C7, amended. A status call with a new status other than \<open>approved\<close> leaves every
  item, the history and the lines of every request as they were; when it succeeds it
  writes, in the rows of the request, the new status and the time of the call into
  \<open>updatedAt\<close>, and nothing else; when it fails it writes nothing.
\<close>

theorem non_approval_frame:
  assumes "st \<noteq> Some ''approved''"
      and "patch_request_status k rank rid st approved_by now db = (rep, db')"
  shows "items db' = items db \<and> stock_history db' = stock_history db \<and>
         request_items db' = request_items db \<and>
         (rep = Ok_success \<longrightarrow>
            db' = db\<lparr>requests :=
                     map (\<lambda>r. if r_id r = rid then r\<lparr>r_status := st, r_updatedAt := now\<rparr> else r)
                       (requests db)\<rparr>) \<and>
         (rep \<noteq> Ok_success \<longrightarrow> db' = db)"
  using patch_cases[OF assms(2)] assms(1)
  by (auto simp: set_status_effect_def update_request_status_def)

theorem non_approval_frame_witness:
  "patch_request_status None as_inserted ''r1'' (Some ''rejected'') None 7 (store (Some ''pending'') [(1, 5)])
     = (Ok_success,
        (store (Some ''pending'') [(1, 5)])
          \<lparr>requests := [(order1 (Some ''rejected''))\<lparr>r_updatedAt := 7\<rparr>]\<rparr>)"
proof -
  let ?db = "store (Some ''pending'') [(1, 5)]"
  obtain rep db' where p: "patch_request_status None as_inserted ''r1'' (Some ''rejected'') None 7 ?db = (rep, db')"
    by (cases "patch_request_status None as_inserted ''r1'' (Some ''rejected'') None 7 ?db")
  have ok: "fst (patch_request_status None as_inserted ''r1'' (Some ''rejected'') None 7 ?db) = Ok_success"
    by (simp add: status_handler_defs warehouse_defs)
  with p have rep: "rep = Ok_success" by simp
  have ne: "Some ''rejected'' \<noteq> Some ''approved''" by simp
  from non_approval_frame[OF ne p] rep
  have "db' = ?db\<lparr>requests :=
      map (\<lambda>r. if r_id r = ''r1'' then r\<lparr>r_status := Some ''rejected'', r_updatedAt := 7\<rparr> else r)
        (requests ?db)\<rparr>"
    by blast
  then have "db' = ?db\<lparr>requests := [(order1 (Some ''rejected''))\<lparr>r_updatedAt := 7\<rparr>]\<rparr>"
    by (simp add: warehouse_defs)
  with p rep show ?thesis by simp
qed

text \<open>Rejecting a request at time 7 moves its \<open>updatedAt\<close> from 0 to 7.\<close>

theorem status_call_touches_updatedAt:
  "map r_updatedAt (requests (store (Some ''pending'') [(1, 5)])) = [0] \<and>
   map r_updatedAt (requests (snd (patch_request_status None as_inserted ''r1'' (Some ''rejected'') None 7
       (store (Some ''pending'') [(1, 5)])))) = [7]"
  by (simp add: status_handler_defs warehouse_defs)

section \<open>Items: manual update\<close>

text \<open>
  C8. A manual update sends its UPDATE and its INSERT as two statements of their own,
  outside any transaction. When the INSERT throws, the reply is an error, the item
  already holds the new quantity, and the history has no entry for the change.
\<close>

theorem manual_update_without_history:
  "put_item (Some 2) 1 (set_quantity 7) shelves
     = (Server_error DbError, shelves\<lparr>items := [paper\<lparr>i_quantity := 7\<rparr>, toner]\<rparr>) \<and>
   stock_history (shelves\<lparr>items := [paper\<lparr>i_quantity := 7\<rparr>, toner]\<rparr>) = []"
  by (simp add: item_handler_defs warehouse_defs eval_nat_numeral)

section \<open>Requests: no status is final\<close>

text \<open>
  C9, amended. A completed request is not frozen: a status call on it that succeeds
  overwrites its status with the new one; when the new status is \<open>approved\<close>, the call
  deducts the stock of every line and appends the history rows, as for a pending
  request; for any other new status it leaves items and history as they were.
\<close>

theorem completed_request_not_frozen:
  assumes "current_status db rid = Some (Some ''completed'')"
      and "patch_request_status k rank rid st approved_by now db = (Ok_success, db')"
  shows "current_status db' rid = Some st \<and>
         (st = Some ''approved'' \<longrightarrow>
            items db' = items (deduct_all rid approved_by (returned_rows rank db rid) db) \<and>
            stock_history db' =
              stock_history db @ map (request_entry rid approved_by) (returned_rows rank db rid)) \<and>
         (st \<noteq> Some ''approved'' \<longrightarrow> items db' = items db \<and> stock_history db' = stock_history db)"
proof -
  from patch_cases[OF assms(2)]
  have eff: "db' = set_status_effect rank rid st approved_by now db" by auto
  have "current_status db' rid = Some st"
    unfolding eff using assms(1) by (simp add: set_status_effect_status)
  moreover have "items db' = items (deduct_all rid approved_by (returned_rows rank db rid) db) \<and>
      stock_history db' = stock_history db @ map (request_entry rid approved_by) (returned_rows rank db rid)"
    if "st = Some ''approved''"
    unfolding eff using assms(1) that
    by (simp add: set_status_effect_def update_request_status_frame deduct_all_history)
  moreover have "items db' = items db \<and> stock_history db' = stock_history db"
    if "st \<noteq> Some ''approved''"
    unfolding eff using that by (simp add: set_status_effect_def update_request_status_frame)
  ultimately show ?thesis by blast
qed

theorem completed_request_not_frozen_witness:
  "current_status (store (Some ''completed'') [(1, 5)]) ''r1'' = Some (Some ''completed'') \<and>
   patch_request_status None as_inserted ''r1'' (Some ''approved'') (Some ''mgr'') 7 (store (Some ''completed'') [(1, 5)])
     = (Ok_success,
        \<lparr>items = [paper\<lparr>i_quantity := 5\<rparr>, toner],
          requests = [(order1 (Some ''approved''))\<lparr>r_updatedAt := 7\<rparr>],
          request_items = [line1 (1, 5)],
          stock_history = [\<lparr>h_item_id = 1, h_change_type = ''request'', h_quantity_before = 10,
             h_quantity_change = - 5, h_quantity_after = 5, h_notes = ''Approved request r1'',
             h_created_by = Some ''mgr''\<rparr>],
          items_id_seq = 2\<rparr>)"
proof -
  let ?db = "store (Some ''completed'') [(1, 5)]"
  let ?out = "patch_request_status None as_inserted ''r1'' (Some ''approved'') (Some ''mgr'') 7 ?db"
  have a: "current_status ?db ''r1'' = Some (Some ''completed'')"
    by (simp add: status_handler_defs warehouse_defs)
  have ok: "fst ?out = Ok_success"
    by (simp add: status_handler_defs warehouse_defs)
  then have b: "?out = (Ok_success, snd ?out)" by (metis prod.collapse)
  from completed_request_not_frozen[OF a b]
  have "current_status (snd ?out) ''r1'' = Some (Some ''approved'')" by blast
  then show ?thesis using a
    by (simp add: status_handler_defs warehouse_defs)
qed

text \<open>
  A completed request set back to \<open>pending\<close> is pending; one set to \<open>approved\<close> has its
  five units of paper deducted and one history row written.
\<close>

theorem completed_request_still_changes:
  "current_status (store (Some ''completed'') [(1, 5)]) ''r1'' = Some (Some ''completed'') \<and>
   current_status (snd (patch_request_status None as_inserted ''r1'' (Some ''pending'') None 7
       (store (Some ''completed'') [(1, 5)]))) ''r1'' = Some (Some ''pending'') \<and>
   map i_quantity (items (store (Some ''completed'') [(1, 5)])) = [10, 4] \<and>
   map i_quantity (items (snd (patch_request_status None as_inserted ''r1'' (Some ''approved'') None 7
       (store (Some ''completed'') [(1, 5)])))) = [5, 4] \<and>
   length (stock_history (snd (patch_request_status None as_inserted ''r1'' (Some ''approved'') None 7
       (store (Some ''completed'') [(1, 5)])))) = 1"
  by (simp add: status_handler_defs warehouse_defs)

section \<open>Items: soft delete\<close>

text \<open>
  C10, amended. Deleting an item replies with success whenever its one UPDATE statement
  runs, also when no item has the given key; it replies with an error, and changes
  nothing, when the statement throws. In every case no row is removed, rows with another
  key are untouched, a row with the key differs at most in \<open>isActive\<close>, which becomes 0,
  and the history, the requests and their lines stay as they were.
\<close>

theorem delete_item_soft:
  assumes "delete_item k iid db = (rep, db')"
  shows "(k \<noteq> Some 0 \<longrightarrow> rep = Ok_success \<and>
            db' = db\<lparr>items := map (\<lambda>i. if i_id i = iid then i\<lparr>i_isActive := Some 0\<rparr> else i)
                                (items db)\<rparr>) \<and>
         (k = Some 0 \<longrightarrow> rep = Server_error DbError \<and> db' = db) \<and>
         map i_id (items db') = map i_id (items db) \<and>
         (\<forall>i \<in> set (items db). i_id i \<noteq> iid \<longrightarrow> i \<in> set (items db')) \<and>
         stock_history db' = stock_history db \<and> requests db' = requests db \<and>
         request_items db' = request_items db"
proof (cases "(k, deactivate_item iid, db)" rule: exec.cases)
  case (1 f d)
  with assms show ?thesis
    by (auto simp: delete_item_def deactivate_item_def comp_def intro!: map_idI)
next
  case (2 f d)
  with assms show ?thesis by (auto simp: delete_item_def)
next
  case (3 n f d)
  with assms show ?thesis
    by (auto simp: delete_item_def deactivate_item_def comp_def)
qed

theorem delete_item_soft_witness:
  "delete_item None 99 (store (Some ''pending'') [(1, 5)]) = (Ok_success, store (Some ''pending'') [(1, 5)]) \<and>
   delete_item None 2 (store (Some ''pending'') [(1, 5)])
     = (Ok_success, (store (Some ''pending'') [(1, 5)])\<lparr>items := [paper, toner\<lparr>i_isActive := Some 0\<rparr>]\<rparr>)"
proof -
  let ?db = "store (Some ''pending'') [(1, 5)]"
  have live: "None \<noteq> Some (0::nat)" by simp
  obtain rep db' where p: "delete_item None 99 ?db = (rep, db')"
    by (cases "delete_item None 99 ?db")
  from delete_item_soft[OF p] live
  have "rep = Ok_success"
    "db' = ?db\<lparr>items := map (\<lambda>i. if i_id i = 99 then i\<lparr>i_isActive := Some 0\<rparr> else i) (items ?db)\<rparr>"
    by blast+
  then have "rep = Ok_success \<and> db' = ?db"
    by (simp add: warehouse_defs)
  with p have one: "delete_item None 99 ?db = (Ok_success, ?db)" by simp
  obtain rep2 db2 where p2: "delete_item None 2 ?db = (rep2, db2)"
    by (cases "delete_item None 2 ?db")
  from delete_item_soft[OF p2] live
  have "rep2 = Ok_success"
    "db2 = ?db\<lparr>items := map (\<lambda>i. if i_id i = 2 then i\<lparr>i_isActive := Some 0\<rparr> else i) (items ?db)\<rparr>"
    by blast+
  then have "rep2 = Ok_success \<and> db2 = ?db\<lparr>items := [paper, toner\<lparr>i_isActive := Some 0\<rparr>]\<rparr>"
    by (simp add: warehouse_defs)
  with p2 have two: "delete_item None 2 ?db = (Ok_success, ?db\<lparr>items := [paper, toner\<lparr>i_isActive := Some 0\<rparr>]\<rparr>)"
    by simp
  from one two show ?thesis by simp
qed

text \<open>When the UPDATE throws, the reply is the error and not \<open>success\<close>.\<close>

theorem delete_item_can_fail:
  "delete_item (Some 0) 2 (store (Some ''pending'') [(1, 5)])
     = (Server_error DbError, store (Some ''pending'') [(1, 5)])"
  by (simp add: item_handler_defs)

end
